theory Spec2Isabelle
  imports Main "HOL-Library.Word"
begin

unbundle bit_operations_syntax

section \<open>Sorter interface firmware: protocol layer\<close>

type_synonym byte = "8 word"
type_synonym u32 = "32 word"

subsection \<open>Integrity: \<open>crc32\<close>\<close>

text \<open>
  The command loop of \<open>sorter_interface_firmware.cpp\<close>, which runs on core 0: the checksum, the
  message layout, the command switch and the receive loop of \<open>main\<close>. The step generation of
  core 1 is outside the model: an axis changes only when a command is processed.
\<close>

text \<open>
  The inner \<open>for (j = 0; j < 8; j++)\<close> loop of \<open>crc32\<close>; the first argument is the number of
  iterations left.
\<close>

fun crc32_bits :: "nat \<Rightarrow> u32 \<Rightarrow> u32" where
  "crc32_bits 0 crc = crc"
| "crc32_bits (Suc j) crc =
     crc32_bits j (if crc AND 1 \<noteq> 0 then drop_bit 1 crc XOR 0xEDB88320 else drop_bit 1 crc)"

text \<open>The outer loop over the data buffer, threading the register.\<close>

fun crc32_loop :: "byte list \<Rightarrow> u32 \<Rightarrow> u32" where
  "crc32_loop [] crc = crc"
| "crc32_loop (b # bs) crc = crc32_loop bs (crc32_bits 8 (crc XOR ucast b))"

definition crc32 :: "byte list \<Rightarrow> u32" where
  "crc32 data = NOT (crc32_loop data 0xFFFFFFFF)"

text \<open>
  The checksum as section 4.1 of the specification words it: one step shifts the register right
  and XORs the polynomial in when the bit shifted out was set; a byte is XORed into the low byte
  and followed by eight steps; the register starts at \<open>0xFFFFFFFF\<close> and the result is
  complemented.
\<close>

definition crc_spec_step :: "u32 \<Rightarrow> u32" where
  "crc_spec_step reg = (if bit reg 0 then drop_bit 1 reg XOR 0xEDB88320 else drop_bit 1 reg)"

definition crc_spec_byte :: "byte \<Rightarrow> u32 \<Rightarrow> u32" where
  "crc_spec_byte b reg = (crc_spec_step ^^ 8) (reg XOR ucast b)"

definition crc32_spec :: "byte list \<Rightarrow> u32" where
  "crc32_spec bytes = NOT (fold crc_spec_byte bytes 0xFFFFFFFF)"

definition ascii :: "string \<Rightarrow> byte list" where
  "ascii s = map of_char s"

subsection \<open>Little-endian 32-bit access to a byte buffer\<close>

text \<open>
  \<open>*((uint32_t*)(p + off))\<close> on the little-endian target: the four bytes from \<open>off\<close>, least
  significant first. \<open>store32\<close> is the matching write.
\<close>

definition load32 :: "byte list \<Rightarrow> nat \<Rightarrow> u32" where
  "load32 p off =
     ucast (p ! off) OR push_bit 8 (ucast (p ! (off + 1))) OR
     push_bit 16 (ucast (p ! (off + 2))) OR push_bit 24 (ucast (p ! (off + 3)))"

definition store32 :: "u32 \<Rightarrow> byte list" where
  "store32 w = [ucast w, ucast (drop_bit 8 w), ucast (drop_bit 16 w), ucast (drop_bit 24 w)]"

subsection \<open>Message layout and command codes\<close>

text \<open>An access the source makes outside a buffer or table.\<close>

datatype fault = OutOfBounds

text \<open>
  \<open>struct Message\<close>. The flexible array member \<open>payload\<close> is the rest of the buffer the struct
  is laid over.
\<close>

record message =
  dev_address :: byte
  command :: byte
  channel :: byte
  payload_length :: byte
  payload :: "byte list"

text \<open>\<open>(struct Message*)rx_message\<close>\<close>

definition as_message :: "byte list \<Rightarrow> message" where
  "as_message buf =
     \<lparr>dev_address = buf ! 0, command = buf ! 1, channel = buf ! 2, payload_length = buf ! 3,
      payload = drop 4 buf\<rparr>"

definition CMD_INIT :: byte where "CMD_INIT = 0x01"
definition CMD_PING :: byte where "CMD_PING = 0x02"
definition CMD_STEPPER_MOVE_STEPS :: byte where "CMD_STEPPER_MOVE_STEPS = 0x10"
definition CMD_STEPPER_MOVE_AT_SPEED :: byte where "CMD_STEPPER_MOVE_AT_SPEED = 0x11"
definition CMD_STEPPER_SET_SPEED_LIMITS :: byte where "CMD_STEPPER_SET_SPEED_LIMITS = 0x12"
definition CMD_STEPPER_SET_ACCELERATION :: byte where "CMD_STEPPER_SET_ACCELERATION = 0x13"
definition CMD_STEPPER_IS_STOPPED :: byte where "CMD_STEPPER_IS_STOPPED = 0x14"
definition CMD_STEPPER_GET_POSITION :: byte where "CMD_STEPPER_GET_POSITION = 0x15"
definition CMD_STEPPER_SET_POSITION :: byte where "CMD_STEPPER_SET_POSITION = 0x16"
definition CMD_STEPPER_HOME :: byte where "CMD_STEPPER_HOME = 0x17"
definition CMD_STEPPER_DRV_SET_ENABLED :: byte where "CMD_STEPPER_DRV_SET_ENABLED = 0x20"
definition CMD_STEPPER_DRV_SET_MICROSTEPS :: byte where "CMD_STEPPER_DRV_SET_MICROSTEPS = 0x21"
definition CMD_STEPPER_DRV_SET_CURRENT :: byte where "CMD_STEPPER_DRV_SET_CURRENT = 0x22"
definition CMD_STEPPER_DRV_READ_REGISTER :: byte where "CMD_STEPPER_DRV_READ_REGISTER = 0x2e"
definition CMD_STEPPER_DRV_WRITE_REGISTER :: byte where "CMD_STEPPER_DRV_WRITE_REGISTER = 0x2f"
definition CMD_DIGITAL_READ :: byte where "CMD_DIGITAL_READ = 0x30"
definition CMD_DIGITAL_WRITE :: byte where "CMD_DIGITAL_WRITE = 0x31"
definition CMD_BAD_COMMAND :: byte where "CMD_BAD_COMMAND = 0xFF"

subsection \<open>Board configuration\<close>

definition DEVICE_NAME :: string where "DEVICE_NAME = ''FEEDER MB''"
definition DEVICE_ADDRESS :: byte where "DEVICE_ADDRESS = 0x00"
definition STEPPER_COUNT :: byte where "STEPPER_COUNT = 4"
definition DIGITAL_INPUT_COUNT :: byte where "DIGITAL_INPUT_COUNT = 4"
definition digital_input_pins :: "int list" where "digital_input_pins = [9, 8, 13, 12]"
definition DIGITAL_OUTPUT_COUNT :: byte where "DIGITAL_OUTPUT_COUNT = 2"
definition digital_output_pins :: "int list" where "digital_output_pins = [14, 15]"
definition SERVO_COUNT :: byte where "SERVO_COUNT = 0"

text \<open>Sizes of the buffers \<open>main\<close> declares.\<close>

definition RX_BUFFER_SIZE :: nat where "RX_BUFFER_SIZE = 255"
definition TX_BUFFER_SIZE :: nat where "TX_BUFFER_SIZE = 255"
definition RX_MESSAGE_SIZE :: nat where "RX_MESSAGE_SIZE = 254"
definition TX_MESSAGE_SIZE :: nat where "TX_MESSAGE_SIZE = 254"

text \<open>
  A C array read \<open>table[i]\<close> with a signed index: outside the table the source reads whatever
  lies next to it, which the model reports as a fault.
\<close>

definition array_read :: "'a list \<Rightarrow> int \<Rightarrow> fault + 'a" where
  "array_read table i =
     (if 0 \<le> i \<and> i < int (length table) then Inr (table ! nat i) else Inl OutOfBounds)"

subsection \<open>\<open>dump_configuration\<close>\<close>

text \<open>The \<open>%d\<close> conversion of \<open>snprintf\<close> on a value that is not negative.\<close>

fun decimal :: "nat \<Rightarrow> string" where
  "decimal n =
     (if n < 10 then [char_of (48 + n)] else decimal (n div 10) @ [char_of (48 + n mod 10)])"

declare decimal.simps [simp del]

definition quoted :: "string \<Rightarrow> string" where
  "quoted s = [CHR 0x22] @ s @ [CHR 0x22]"

definition configuration_json :: string where
  "configuration_json =
     ''{'' @ quoted ''firmware_version'' @ '':'' @ quoted ''1.0'' @ '','' @
     quoted ''device_name'' @ '':'' @ quoted DEVICE_NAME @ '','' @
     quoted ''device_address'' @ '':'' @ decimal (unat DEVICE_ADDRESS) @ '','' @
     quoted ''stepper_count'' @ '':'' @ decimal (unat STEPPER_COUNT) @ '','' @
     quoted ''digital_input_count'' @ '':'' @ decimal (unat DIGITAL_INPUT_COUNT) @ '','' @
     quoted ''digital_output_count'' @ '':'' @ decimal (unat DIGITAL_OUTPUT_COUNT) @ '','' @
     quoted ''servo_count'' @ '':'' @ decimal (unat SERVO_COUNT) @ ''}''"

text \<open>
  \<open>dump_configuration buf_size\<close> gives \<open>snprintf\<close>'s return value (the length of the whole
  formatted string) and the bytes it stores in \<open>buf\<close>: at most \<open>buf_size - 1\<close> characters and the
  terminating NUL.
\<close>

definition dump_configuration :: "nat \<Rightarrow> int \<times> byte list" where
  "dump_configuration buf_size =
     (int (length configuration_json),
      if buf_size = 0 then [] else map of_char (take (buf_size - 1) configuration_json) @ [0])"

subsection \<open>Motion axes\<close>

datatype axis_mode = STOPPED | MOVE_TO_TARGET | RUN_AT_SPEED | HOMING

text \<open>
  Modelled from the spec: the state of class \<open>Stepper\<close> (\<open>Stepper.h\<close> is not among the sources),
  after the AxisState of section 3. Rates and counts are kept as unbounded numbers; the speed
  limits and the acceleration are unsigned.
\<close>

record stepper =
  position :: int
  mode :: axis_mode
  target_distance :: int
  current_rate :: int
  target_rate :: int
  min_speed :: nat
  max_speed :: nat
  acceleration :: nat
  phase_accumulator :: int
  homing_sensor :: int
  homing_polarity :: bool

text \<open>Modelled from the spec: \<open>Stepper::initialize\<close>, "resets to STOPPED, zero position, zero rate".\<close>

definition Stepper_initialize :: "stepper \<Rightarrow> stepper" where
  "Stepper_initialize s = s\<lparr>position := 0, mode := STOPPED, current_rate := 0, target_rate := 0\<rparr>"

text \<open>Modelled from the spec: \<open>Stepper::setAcceleration\<close>, "update bounds".\<close>

definition Stepper_setAcceleration :: "nat \<Rightarrow> stepper \<Rightarrow> stepper" where
  "Stepper_setAcceleration a s = s\<lparr>acceleration := a\<rparr>"

text \<open>Modelled from the spec: \<open>Stepper::setSpeedLimits\<close>, "update bounds".\<close>

definition Stepper_setSpeedLimits :: "nat \<Rightarrow> nat \<Rightarrow> stepper \<Rightarrow> stepper" where
  "Stepper_setSpeedLimits lo hi s = s\<lparr>min_speed := lo, max_speed := hi\<rparr>"

text \<open>
  Modelled from the spec: \<open>Stepper::moveSteps\<close>, "if axis is not STOPPED, returns failure and
  leaves state unchanged; else atomically sets mode = MOVE_TO_TARGET, target_distance = distance,
  target_rate = sign(distance) x max_speed, returns success".
\<close>

definition Stepper_moveSteps :: "int \<Rightarrow> stepper \<Rightarrow> bool \<times> stepper" where
  "Stepper_moveSteps distance s =
     (if mode s \<noteq> STOPPED then (False, s)
      else (True, s\<lparr>mode := MOVE_TO_TARGET, target_distance := distance,
                      target_rate := sgn distance * int (max_speed s)\<rparr>))"

text \<open>
  Modelled from the spec: \<open>Stepper::moveAtSpeed\<close>, "atomically sets mode = RUN_AT_SPEED,
  target_rate = clamp(speed, -max_speed, max_speed); speed 0 is a valid way to command
  deceleration to stop (mode then settles to STOPPED once current_rate reaches 0). Always
  succeeds."
\<close>

definition Stepper_moveAtSpeed :: "int \<Rightarrow> stepper \<Rightarrow> bool \<times> stepper" where
  "Stepper_moveAtSpeed speed s =
     (True, s\<lparr>mode := RUN_AT_SPEED,
               target_rate := max (- int (max_speed s)) (min (int (max_speed s)) speed)\<rparr>)"

text \<open>
  Modelled from the spec: \<open>Stepper::isStopped\<close>, "true iff mode == STOPPED and
  current_rate == 0".
\<close>

definition Stepper_isStopped :: "stepper \<Rightarrow> bool" where
  "Stepper_isStopped s = (mode s = STOPPED \<and> current_rate s = 0)"

text \<open>Modelled from the spec: \<open>Stepper::getPosition\<close>.\<close>

definition Stepper_getPosition :: "stepper \<Rightarrow> int" where
  "Stepper_getPosition s = position s"

text \<open>
  Modelled from the spec: \<open>Stepper::setPosition\<close>, "fails if axis is not STOPPED; otherwise
  overwrites position and phase accumulator with no step emission".
\<close>

definition Stepper_setPosition :: "int \<Rightarrow> stepper \<Rightarrow> bool \<times> stepper" where
  "Stepper_setPosition pos s =
     (if mode s \<noteq> STOPPED then (False, s)
      else (True, s\<lparr>position := pos, phase_accumulator := 0\<rparr>))"

text \<open>
  Modelled from the spec: \<open>Stepper::home\<close>, "fails if axis is not STOPPED; otherwise sets
  mode = HOMING, target_rate = sign(speed) x |speed|, records sensor_line/polarity".
\<close>

definition Stepper_home :: "int \<Rightarrow> int \<Rightarrow> bool \<Rightarrow> stepper \<Rightarrow> bool \<times> stepper" where
  "Stepper_home speed sensor polarity s =
     (if mode s \<noteq> STOPPED then (False, s)
      else (True, s\<lparr>mode := HOMING, target_rate := sgn speed * \<bar>speed\<bar>,
                      homing_sensor := sensor, homing_polarity := polarity\<rparr>))"

subsection \<open>Motor drivers and digital lines\<close>

datatype microstep = MICROSTEP_FULL | MICROSTEP_2 | MICROSTEP_4 | MICROSTEP_8 | MICROSTEP_16
  | MICROSTEP_32

text \<open>
  Modelled from the spec: class \<open>TMC2209\<close> (\<open>TMC2209.h\<close> is not among the sources) is the
  DriverService of section 6; a driver is the sequence of requests it has received.
\<close>

datatype driver_call =
    Initialize
  | EnableDriver bool
  | SetMicrosteps microstep
  | SetCurrent u32 u32 u32
  | EnableStealthChop bool
  | ReadRegister u32
  | WriteRegister u32 u32

text \<open>
  The globals the command loop works on: \<open>steppers[]\<close>, \<open>tmc_drivers[]\<close> and the level last
  written to each GPIO pin with \<open>gpio_put\<close>.
\<close>

record device =
  steppers :: "stepper list"
  tmc_drivers :: "driver_call list list"
  gpio_out :: "int \<Rightarrow> bool"

definition set_stepper :: "device \<Rightarrow> nat \<Rightarrow> stepper \<Rightarrow> device" where
  "set_stepper dev i s = dev\<lparr>steppers := (steppers dev)[i := s]\<rparr>"

definition tmc_call :: "device \<Rightarrow> nat \<Rightarrow> driver_call \<Rightarrow> device" where
  "tmc_call dev i c = dev\<lparr>tmc_drivers := (tmc_drivers dev)[i := tmc_drivers dev ! i @ [c]]\<rparr>"

definition gpio_put :: "int \<Rightarrow> bool \<Rightarrow> device \<Rightarrow> device" where
  "gpio_put pin v dev = dev\<lparr>gpio_out := (gpio_out dev)(pin := v)\<rparr>"

text \<open>
  What the command loop calls and the source file does not define: the frame codec of
  \<open>cobs.h\<close> (\<open>None\<close> is a negative return value; the second argument is the size of the
  destination), the level \<open>gpio_get\<close> reads from a pin, and the answer of a driver to a register
  read (\<open>None\<close> is a negative return value). They are parameters of the loop.
\<close>

record platform =
  COBS_decode :: "byte list \<Rightarrow> nat \<Rightarrow> byte list option"
  COBS_encode :: "byte list \<Rightarrow> nat \<Rightarrow> byte list option"
  gpio_get :: "int \<Rightarrow> bool"
  TMC_readRegister :: "nat \<Rightarrow> u32 \<Rightarrow> u32 option"

subsection \<open>The command switch of \<open>main\<close>\<close>

text \<open>
  How a case of the switch is left: \<open>Break\<close> goes on to send the response, \<open>Continue\<close> is the
  \<open>continue\<close> statement, which restarts the main loop with the response unsent.
\<close>

datatype flow = Break message | Continue message

definition reply :: "message \<Rightarrow> byte \<Rightarrow> byte \<Rightarrow> byte list \<Rightarrow> message" where
  "reply msg cmd len data =
     \<lparr>dev_address = dev_address msg, command = cmd, channel = channel msg,
      payload_length = len, payload = data\<rparr>"

text \<open>\<open>resp->command = msg->command | 0x80; resp->payload_length = 0;\<close>\<close>

definition bad_arguments :: "message \<Rightarrow> message" where
  "bad_arguments msg = reply msg (command msg OR 0x80) 0 []"

definition bool32 :: "bool \<Rightarrow> u32" where
  "bool32 b = (if b then 1 else 0)"

definition handle_INIT :: "message \<Rightarrow> device \<Rightarrow> fault + flow \<times> device" where
  "handle_INIT msg dev =
     (let dev1 = fold (\<lambda>i d. set_stepper d i (snd (Stepper_moveAtSpeed 0 (steppers d ! i))))
                   [0 ..< unat STEPPER_COUNT] dev;
          dev2 = fold (\<lambda>i d. gpio_put (digital_output_pins ! i) False d)
                   [0 ..< unat DIGITAL_OUTPUT_COUNT] dev1;
          (n_bytes, written) = dump_configuration 246
      in Inr (Break (reply msg CMD_INIT (of_int n_bytes) written), dev2))"

text \<open>
  \<open>memcpy(resp->payload, msg->payload, msg->payload_length)\<close> is not guarded by the source:
  where it would read past \<open>rx_message\<close> or write past \<open>tx_message\<close> the model reports the fault.
\<close>

definition handle_PING :: "message \<Rightarrow> device \<Rightarrow> fault + flow \<times> device" where
  "handle_PING msg dev =
     (let n = unat (payload_length msg)
      in if length (payload msg) < n \<or> TX_MESSAGE_SIZE < 4 + n then Inl OutOfBounds
         else Inr (Break (reply msg CMD_PING (payload_length msg) (take n (payload msg))), dev))"

definition handle_MOVE_STEPS :: "message \<Rightarrow> device \<Rightarrow> fault + flow \<times> device" where
  "handle_MOVE_STEPS msg dev =
     (if payload_length msg = 4 \<and> channel msg < STEPPER_COUNT then
        let stepper_id = unat (channel msg);
            distance = sint (load32 (payload msg) 0);
            (res, s) = Stepper_moveSteps distance (steppers dev ! stepper_id)
        in Inr (Break (reply msg (command msg) 4 (store32 (bool32 res))),
                set_stepper dev stepper_id s)
      else Inr (Break (bad_arguments msg), dev))"

definition handle_MOVE_AT_SPEED :: "message \<Rightarrow> device \<Rightarrow> fault + flow \<times> device" where
  "handle_MOVE_AT_SPEED msg dev =
     (if payload_length msg = 4 \<and> channel msg < STEPPER_COUNT then
        let stepper_id = unat (channel msg);
            speed = sint (load32 (payload msg) 0);
            (res, s) = Stepper_moveAtSpeed speed (steppers dev ! stepper_id)
        in Inr (Break (reply msg (command msg) 4 (store32 (bool32 res))),
                set_stepper dev stepper_id s)
      else Inr (Break (bad_arguments msg), dev))"

definition handle_SET_SPEED_LIMITS :: "message \<Rightarrow> device \<Rightarrow> fault + flow \<times> device" where
  "handle_SET_SPEED_LIMITS msg dev =
     (if payload_length msg = 8 \<and> channel msg < STEPPER_COUNT then
        let stepper_id = unat (channel msg);
            min_speed = unat (load32 (payload msg) 0);
            max_speed = unat (load32 (payload msg) 4)
        in Inr (Break (reply msg (command msg) 0 []),
                set_stepper dev stepper_id
                  (Stepper_setSpeedLimits min_speed max_speed (steppers dev ! stepper_id)))
      else Inr (Break (bad_arguments msg), dev))"

definition handle_SET_ACCELERATION :: "message \<Rightarrow> device \<Rightarrow> fault + flow \<times> device" where
  "handle_SET_ACCELERATION msg dev =
     (if payload_length msg = 4 \<and> channel msg < STEPPER_COUNT then
        let stepper_id = unat (channel msg);
            acceleration = unat (load32 (payload msg) 0)
        in Inr (Break (reply msg (command msg) 0 []),
                set_stepper dev stepper_id
                  (Stepper_setAcceleration acceleration (steppers dev ! stepper_id)))
      else Inr (Break (bad_arguments msg), dev))"

definition handle_IS_STOPPED :: "message \<Rightarrow> device \<Rightarrow> fault + flow \<times> device" where
  "handle_IS_STOPPED msg dev =
     (if payload_length msg = 0 \<and> channel msg < STEPPER_COUNT then
        let stepper_id = unat (channel msg);
            res = Stepper_isStopped (steppers dev ! stepper_id)
        in Inr (Break (reply msg (command msg) 4 (store32 (bool32 res))), dev)
      else Inr (Break (bad_arguments msg), dev))"

definition handle_GET_POSITION :: "message \<Rightarrow> device \<Rightarrow> fault + flow \<times> device" where
  "handle_GET_POSITION msg dev =
     (if payload_length msg = 0 \<and> channel msg < STEPPER_COUNT then
        let stepper_id = unat (channel msg);
            position = Stepper_getPosition (steppers dev ! stepper_id)
        in Inr (Break (reply msg (command msg) 4 (store32 (word_of_int position))), dev)
      else Inr (Break (bad_arguments msg), dev))"

definition handle_SET_POSITION :: "message \<Rightarrow> device \<Rightarrow> fault + flow \<times> device" where
  "handle_SET_POSITION msg dev =
     (if payload_length msg = 4 \<and> channel msg < STEPPER_COUNT then
        let stepper_id = unat (channel msg);
            position = sint (load32 (payload msg) 0)
        in Inr (Break (reply msg (command msg) 0 []),
                set_stepper dev stepper_id
                  (snd (Stepper_setPosition position (steppers dev ! stepper_id))))
      else Inr (Break (bad_arguments msg), dev))"

definition handle_HOME :: "message \<Rightarrow> device \<Rightarrow> fault + flow \<times> device" where
  "handle_HOME msg dev =
     (if payload_length msg = 12 \<and> channel msg < STEPPER_COUNT then
        let stepper_id = unat (channel msg);
            home_speed = sint (load32 (payload msg) 0);
            home_pin = sint (load32 (payload msg) 4);
            home_pin_polarity = (payload msg ! 8 \<noteq> 0)
        in if uint DIGITAL_INPUT_COUNT \<le> home_pin then Inr (Break (bad_arguments msg), dev)
           else case array_read digital_input_pins home_pin of
                  Inl f \<Rightarrow> Inl f
                | Inr pin \<Rightarrow>
                    Inr (Break (reply msg (command msg) 0 []),
                         set_stepper dev stepper_id
                           (snd (Stepper_home home_speed pin home_pin_polarity
                                   (steppers dev ! stepper_id))))
      else Inr (Break (bad_arguments msg), dev))"

definition handle_DRV_SET_ENABLED :: "message \<Rightarrow> device \<Rightarrow> fault + flow \<times> device" where
  "handle_DRV_SET_ENABLED msg dev =
     (if payload_length msg = 4 \<and> channel msg < STEPPER_COUNT then
        let stepper_id = unat (channel msg);
            enabled = (load32 (payload msg) 0 \<noteq> 0)
        in Inr (Break (reply msg (command msg) 0 []),
                tmc_call dev stepper_id (EnableDriver enabled))
      else Inr (Break (bad_arguments msg), dev))"

definition handle_DRV_SET_MICROSTEPS :: "message \<Rightarrow> device \<Rightarrow> fault + flow \<times> device" where
  "handle_DRV_SET_MICROSTEPS msg dev =
     (if payload_length msg = 4 \<and> channel msg < STEPPER_COUNT then
        let stepper_id = unat (channel msg);
            microsteps = load32 (payload msg) 0;
            done = Break (reply msg (command msg) 0 [])
        in if microsteps = 1 then
             Inr (done, tmc_call dev stepper_id (SetMicrosteps MICROSTEP_FULL))
           else if microsteps = 2 then
             Inr (done, tmc_call dev stepper_id (SetMicrosteps MICROSTEP_2))
           else if microsteps = 4 then
             Inr (done, tmc_call dev stepper_id (SetMicrosteps MICROSTEP_4))
           else if microsteps = 8 then
             Inr (done, tmc_call dev stepper_id (SetMicrosteps MICROSTEP_8))
           else if microsteps = 16 then
             Inr (done, tmc_call dev stepper_id (SetMicrosteps MICROSTEP_16))
           else if microsteps = 32 then
             Inr (done, tmc_call dev stepper_id (SetMicrosteps MICROSTEP_32))
           else Inr (Continue (bad_arguments msg), dev)
      else Inr (Break (bad_arguments msg), dev))"

definition handle_DRV_SET_CURRENT :: "message \<Rightarrow> device \<Rightarrow> fault + flow \<times> device" where
  "handle_DRV_SET_CURRENT msg dev =
     (if payload_length msg = 12 \<and> channel msg < STEPPER_COUNT then
        let stepper_id = unat (channel msg);
            run_current = load32 (payload msg) 0;
            hold_current = load32 (payload msg) 4;
            hold_delay = load32 (payload msg) 8
        in Inr (Break (reply msg (command msg) 0 []),
                tmc_call dev stepper_id (SetCurrent run_current hold_current hold_delay))
      else Inr (Break (bad_arguments msg), dev))"

definition handle_DRV_READ_REGISTER ::
  "platform \<Rightarrow> message \<Rightarrow> device \<Rightarrow> fault + flow \<times> device" where
  "handle_DRV_READ_REGISTER pf msg dev =
     (if payload_length msg = 4 \<and> channel msg < STEPPER_COUNT then
        let stepper_id = unat (channel msg);
            reg_addr = load32 (payload msg) 0;
            dev1 = tmc_call dev stepper_id (ReadRegister reg_addr)
        in case TMC_readRegister pf stepper_id reg_addr of
             None \<Rightarrow> Inr (Break (reply msg (command msg OR 0x80) 0 []), dev1)
           | Some reg_value \<Rightarrow> Inr (Break (reply msg (command msg) 4 (store32 reg_value)), dev1)
      else Inr (Break (bad_arguments msg), dev))"

definition handle_DRV_WRITE_REGISTER :: "message \<Rightarrow> device \<Rightarrow> fault + flow \<times> device" where
  "handle_DRV_WRITE_REGISTER msg dev =
     (if payload_length msg = 8 \<and> channel msg < STEPPER_COUNT then
        let stepper_id = unat (channel msg);
            reg_addr = load32 (payload msg) 0;
            reg_value = load32 (payload msg) 4
        in Inr (Break (reply msg (command msg) 0 []),
                tmc_call dev stepper_id (WriteRegister reg_addr reg_value))
      else Inr (Break (bad_arguments msg), dev))"

definition handle_DIGITAL_READ ::
  "platform \<Rightarrow> message \<Rightarrow> device \<Rightarrow> fault + flow \<times> device" where
  "handle_DIGITAL_READ pf msg dev =
     (if payload_length msg = 0 \<and> channel msg < DIGITAL_INPUT_COUNT then
        let input_id = unat (channel msg);
            pin = digital_input_pins ! input_id;
            v = gpio_get pf pin
        in Inr (Break (reply msg (command msg) 4 (store32 (bool32 v))), dev)
      else Inr (Break (bad_arguments msg), dev))"

definition handle_DIGITAL_WRITE :: "message \<Rightarrow> device \<Rightarrow> fault + flow \<times> device" where
  "handle_DIGITAL_WRITE msg dev =
     (if payload_length msg = 4 \<and> channel msg < DIGITAL_OUTPUT_COUNT then
        let output_id = unat (channel msg);
            v = (load32 (payload msg) 0 \<noteq> 0);
            pin = digital_output_pins ! output_id
        in Inr (Break (reply msg (command msg) 0 []), gpio_put pin v dev)
      else Inr (Break (bad_arguments msg), dev))"

text \<open>\<open>switch (msg->command)\<close>, with the response's address and channel copied from the request.\<close>

definition dispatch :: "platform \<Rightarrow> message \<Rightarrow> device \<Rightarrow> fault + flow \<times> device" where
  "dispatch pf msg dev =
     (let c = command msg in
      if c = CMD_INIT then handle_INIT msg dev
      else if c = CMD_PING then handle_PING msg dev
      else if c = CMD_STEPPER_MOVE_STEPS then handle_MOVE_STEPS msg dev
      else if c = CMD_STEPPER_MOVE_AT_SPEED then handle_MOVE_AT_SPEED msg dev
      else if c = CMD_STEPPER_SET_SPEED_LIMITS then handle_SET_SPEED_LIMITS msg dev
      else if c = CMD_STEPPER_SET_ACCELERATION then handle_SET_ACCELERATION msg dev
      else if c = CMD_STEPPER_IS_STOPPED then handle_IS_STOPPED msg dev
      else if c = CMD_STEPPER_GET_POSITION then handle_GET_POSITION msg dev
      else if c = CMD_STEPPER_SET_POSITION then handle_SET_POSITION msg dev
      else if c = CMD_STEPPER_HOME then handle_HOME msg dev
      else if c = CMD_STEPPER_DRV_SET_ENABLED then handle_DRV_SET_ENABLED msg dev
      else if c = CMD_STEPPER_DRV_SET_MICROSTEPS then handle_DRV_SET_MICROSTEPS msg dev
      else if c = CMD_STEPPER_DRV_SET_CURRENT then handle_DRV_SET_CURRENT msg dev
      else if c = CMD_STEPPER_DRV_READ_REGISTER then handle_DRV_READ_REGISTER pf msg dev
      else if c = CMD_STEPPER_DRV_WRITE_REGISTER then handle_DRV_WRITE_REGISTER msg dev
      else if c = CMD_DIGITAL_READ then handle_DIGITAL_READ pf msg dev
      else if c = CMD_DIGITAL_WRITE then handle_DIGITAL_WRITE msg dev
      else Inr (Break (reply msg CMD_BAD_COMMAND 0 []), dev))"

subsection \<open>Sending the response\<close>

text \<open>
  The code after the switch: the first \<open>4 + payload_length\<close> bytes of \<open>tx_message\<close> are the
  header and what the handler stored as payload; the checksum is appended and the whole is
  encoded into \<open>tx_buffer\<close>. The result is the bytes handed to \<open>stdio_put_string\<close>, or \<open>None\<close>
  when the encoder's negative return value makes the loop \<open>continue\<close>. Appending the checksum
  past the end of \<open>tx_message\<close> is the fault.
\<close>

definition message_bytes :: "message \<Rightarrow> byte list" where
  "message_bytes m =
     [dev_address m, command m, channel m, payload_length m] @
     take (unat (payload_length m)) (payload m)"

text \<open>A message followed by its checksum, as it is handed to the encoder and as a host builds it.\<close>

definition with_crc :: "byte list \<Rightarrow> byte list" where
  "with_crc bytes = bytes @ store32 (crc32 bytes)"

definition transmit :: "platform \<Rightarrow> message \<Rightarrow> fault + byte list option" where
  "transmit pf resp =
     (let resp_len = 4 + unat (payload_length resp)
      in if TX_MESSAGE_SIZE < resp_len + 4 then Inl OutOfBounds
         else Inr (COBS_encode pf (with_crc (message_bytes resp)) TX_BUFFER_SIZE))"

subsection \<open>The main loop\<close>

text \<open>
  The variables of \<open>main\<close> that live across iterations. \<open>rx_buffer\<close> holds the bytes received
  so far, so that \<open>rx_buffer_pos\<close> is its length; \<open>rx_message\<close> is the whole array, with
  whatever earlier frames left behind the last decoded one.
\<close>

record firmware =
  rx_buffer :: "byte list"
  rx_message :: "byte list"
  msg_len :: int
  device :: device

text \<open>
  The body of the receive loop for a character \<open>c\<close> that was read; the flag says whether the
  loop is left by \<open>break\<close>. What a failing \<open>COBS_decode\<close> may have stored in \<open>rx_message\<close> is not
  modelled: the buffer is kept.
\<close>

definition receive_char :: "platform \<Rightarrow> byte \<Rightarrow> firmware \<Rightarrow> fault + firmware \<times> bool" where
  "receive_char pf c fw =
     (if c = 0 then
        if length (rx_buffer fw) < 8 then Inr (fw\<lparr>msg_len := 0\<rparr>, True)
        else case COBS_decode pf (rx_buffer fw) RX_MESSAGE_SIZE of
          None \<Rightarrow> Inr (fw\<lparr>rx_buffer := [], msg_len := - 1\<rparr>, True)
        | Some decoded \<Rightarrow>
            let res = length decoded in
            if RX_MESSAGE_SIZE < res then Inl OutOfBounds
            else
              let buf = decoded @ drop res (rx_message fw);
                  fw1 = fw\<lparr>rx_message := buf\<rparr>
              in if buf ! 0 \<noteq> DEVICE_ADDRESS then
                   Inr (fw1\<lparr>rx_buffer := [], msg_len := - 1\<rparr>, True)
                 else if res < 4 then Inl OutOfBounds
                 else
                   let incoming_crc = load32 buf (res - 4);
                       calc_crc = crc32 (take (res - 4) buf)
                   in if calc_crc \<noteq> incoming_crc then
                        Inr (fw1\<lparr>rx_buffer := [], msg_len := - 1\<rparr>, True)
                      else Inr (fw1\<lparr>rx_buffer := [], msg_len := int res - 4\<rparr>, True)
      else if length (rx_buffer fw) < RX_BUFFER_SIZE then
        Inr (fw\<lparr>rx_buffer := rx_buffer fw @ [c]\<rparr>, False)
      else Inr (fw\<lparr>rx_buffer := [], msg_len := - 1\<rparr>, True))"

text \<open>What \<open>stdio_getchar_timeout_us(0)\<close> returns: a character, or \<open>PICO_ERROR_TIMEOUT\<close>.\<close>

datatype event = Char byte | Timeout

text \<open>
  The inner \<open>while (true)\<close>, run on the results of the successive reads; it gives back the reads
  it has not consumed. The list is the finite part of the input that is observed: the loop
  stops when it ends.
\<close>

fun receive_loop :: "platform \<Rightarrow> event list \<Rightarrow> firmware \<Rightarrow> fault + firmware \<times> event list" where
  "receive_loop pf [] fw = Inr (fw, [])"
| "receive_loop pf (Timeout # es) fw = Inr (fw, es)"
| "receive_loop pf (Char c # es) fw =
     (case receive_char pf c fw of
        Inl f \<Rightarrow> Inl f
      | Inr (fw1, leave) \<Rightarrow> if leave then Inr (fw1, es) else receive_loop pf es fw1)"

text \<open>
  \<open>if (msg_len > 0) { ... }\<close>: the switch, then the response. The second component is the list
  of buffers written with \<open>stdio_put_string\<close>. \<open>msg_len\<close> is cleared only on the path that
  sends.
\<close>

definition process_message :: "platform \<Rightarrow> firmware \<Rightarrow> fault + firmware \<times> byte list list" where
  "process_message pf fw =
     (if 0 < msg_len fw then
        case dispatch pf (as_message (rx_message fw)) (device fw) of
          Inl f \<Rightarrow> Inl f
        | Inr (Continue resp, dev) \<Rightarrow> Inr (fw\<lparr>device := dev\<rparr>, [])
        | Inr (Break resp, dev) \<Rightarrow>
            (case transmit pf resp of
               Inl f \<Rightarrow> Inl f
             | Inr None \<Rightarrow> Inr (fw\<lparr>device := dev\<rparr>, [])
             | Inr (Some tx_buffer) \<Rightarrow> Inr (fw\<lparr>msg_len := 0, device := dev\<rparr>, [tx_buffer]))
      else Inr (fw, []))"

lemma receive_loop_consumes:
  "receive_loop pf es fw = Inr (fw1, rest) \<Longrightarrow> es \<noteq> [] \<Longrightarrow> length rest < length es"
proof (induction pf es fw rule: receive_loop.induct)
  case (1 pf fw)
  then show ?case by simp
next
  case (2 pf es fw)
  then show ?case by simp
next
  case (3 pf c es fw)
  show ?case
  proof (cases "receive_char pf c fw")
    case (Inl f)
    with 3 show ?thesis by simp
  next
    case (Inr r)
    obtain fw2 leave where r: "r = (fw2, leave)" by (cases r)
    show ?thesis
    proof (cases leave)
      case True
      with 3 Inr r show ?thesis by simp
    next
      case False
      with 3 Inr r have run: "receive_loop pf es fw2 = Inr (fw1, rest)" by simp
      show ?thesis
      proof (cases "es = []")
        case True
        with run show ?thesis by simp
      next
        case nonempty: False
        have "length rest < length es"
          using "3.IH" [OF Inr r [symmetric] False run nonempty] .
        then show ?thesis by simp
      qed
    qed
  qed
qed

text \<open>
  The outer \<open>while (true)\<close>: receive, then process, over the observed reads. It returns the
  final state and everything written to the host, or the fault that stopped it.
\<close>

function main_loop :: "platform \<Rightarrow> event list \<Rightarrow> firmware \<Rightarrow> fault + firmware \<times> byte list list"
  where
  "main_loop pf [] fw = Inr (fw, [])"
| "main_loop pf (e # es) fw =
     (case receive_loop pf (e # es) fw of
        Inl f \<Rightarrow> Inl f
      | Inr (fw1, rest) \<Rightarrow>
          (case process_message pf fw1 of
             Inl f \<Rightarrow> Inl f
           | Inr (fw2, out) \<Rightarrow>
               (case main_loop pf rest fw2 of
                  Inl f \<Rightarrow> Inl f
                | Inr (fw3, out') \<Rightarrow> Inr (fw3, out @ out'))))"
  by pat_completeness auto
termination
proof (relation "measure (\<lambda>(pf, es, fw). length es)")
  show "wf (measure (\<lambda>(pf, es, fw). length es))" by simp
next
  fix pf e es fw x2 x y x2a xa ya
  assume "receive_loop pf (e # es) fw = Inr x2" and "(x, y) = x2"
  then have "receive_loop pf (e # es) fw = Inr (x, y)" by simp
  then have "length y < length (e # es)" by (rule receive_loop_consumes) simp
  then show "((pf, y, xa), pf, e # es, fw) \<in> measure (\<lambda>(pf, es, fw). length es)" by simp
qed

subsection \<open>Start-up\<close>

text \<open>Modelled from the spec: a \<open>Stepper\<close> as constructed, "mode STOPPED, zero position, zero rate".\<close>

definition Stepper_new :: stepper where
  "Stepper_new =
     \<lparr>position = 0, mode = STOPPED, target_distance = 0, current_rate = 0, target_rate = 0,
      min_speed = 0, max_speed = 0, acceleration = 0, phase_accumulator = 0,
      homing_sensor = 0, homing_polarity = False\<rparr>"

text \<open>The globals after \<open>initialize_hardware\<close>.\<close>

definition initialize_hardware :: device where
  "initialize_hardware =
     \<lparr>steppers =
        replicate (unat STEPPER_COUNT)
          (Stepper_setSpeedLimits 16 4000 (Stepper_setAcceleration 20000
             (Stepper_initialize Stepper_new))),
      tmc_drivers =
        replicate (unat STEPPER_COUNT)
          [Initialize, EnableDriver True, SetCurrent 31 16 10, SetMicrosteps MICROSTEP_8,
           EnableStealthChop True],
      gpio_out = (\<lambda>pin. False)\<rparr>"

text \<open>
  The state in which \<open>main\<close> enters its loop. \<open>rx_message\<close> is not initialised by the source:
  its first content is the argument.
\<close>

definition boot :: "byte list \<Rightarrow> firmware" where
  "boot garbage =
     \<lparr>rx_buffer = [], rx_message = garbage, msg_len = 0, device = initialize_hardware\<rparr>"

subsection \<open>A frame codec\<close>

text \<open>
  Modelled from the spec: \<open>COBS_encode\<close> (\<open>cobs.h\<close> is not among the sources), the "zero-elimination
  byte stuffing (each run between zero bytes is length-prefixed)" of section 4.2. The first
  argument is the run collected since the last zero; a run of 254 bytes is closed with the
  prefix \<open>0xFF\<close>, which stands for no zero.
\<close>

fun cobs_stuff :: "byte list \<Rightarrow> byte list \<Rightarrow> byte list" where
  "cobs_stuff run [] = of_nat (length run + 1) # run"
| "cobs_stuff run (b # bs) =
     (if b = 0 then of_nat (length run + 1) # run @ cobs_stuff [] bs
      else if length run = 253 then 0xFF # run @ b # cobs_stuff [] bs
      else cobs_stuff (run @ [b]) bs)"

definition cobs_encode :: "byte list \<Rightarrow> nat \<Rightarrow> byte list option" where
  "cobs_encode src dst_size =
     (let stuffed = cobs_stuff [] src
      in if dst_size < length stuffed then None else Some stuffed)"

text \<open>
  Modelled from the spec: \<open>COBS_decode\<close>, the "inverse transform; fails if the stuffed encoding is
  structurally inconsistent (a length prefix pointing past the buffer end, etc.) or if the
  destination buffer is smaller than the decoded result".
\<close>

fun cobs_unstuff :: "byte list \<Rightarrow> byte list option" where
  "cobs_unstuff [] = Some []"
| "cobs_unstuff (c # rest) =
     (if c = 0 \<or> length rest < unat c - 1 then None
      else case cobs_unstuff (drop (unat c - 1) rest) of
             None \<Rightarrow> None
           | Some out \<Rightarrow>
               Some (take (unat c - 1) rest @
                     (if c = 0xFF \<or> drop (unat c - 1) rest = [] then [] else [0]) @ out))"

definition cobs_decode :: "byte list \<Rightarrow> nat \<Rightarrow> byte list option" where
  "cobs_decode src dst_size =
     (case cobs_unstuff src of
        None \<Rightarrow> None
      | Some out \<Rightarrow> if dst_size < length out then None else Some out)"

text \<open>
  A platform to run the loop on: the codec above, every input line reading low, every register
  read failing.
\<close>

definition bench :: platform where
  "bench =
     \<lparr>COBS_decode = cobs_decode, COBS_encode = cobs_encode, gpio_get = (\<lambda>pin. False),
      TMC_readRegister = (\<lambda>stepper_id reg_addr. None)\<rparr>"

subsection \<open>Vocabulary of the properties\<close>

text \<open>The commands whose channel selects an axis: the cases that test it against \<open>STEPPER_COUNT\<close>.\<close>

definition axis_commands :: "byte list" where
  "axis_commands =
     [CMD_STEPPER_MOVE_STEPS, CMD_STEPPER_MOVE_AT_SPEED, CMD_STEPPER_SET_SPEED_LIMITS,
      CMD_STEPPER_SET_ACCELERATION, CMD_STEPPER_IS_STOPPED, CMD_STEPPER_GET_POSITION,
      CMD_STEPPER_SET_POSITION, CMD_STEPPER_HOME, CMD_STEPPER_DRV_SET_ENABLED,
      CMD_STEPPER_DRV_SET_MICROSTEPS, CMD_STEPPER_DRV_SET_CURRENT,
      CMD_STEPPER_DRV_READ_REGISTER, CMD_STEPPER_DRV_WRITE_REGISTER]"

text \<open>The commands whose case compares \<open>payload_length\<close> with a constant, and that constant.\<close>

definition fixed_length_commands :: "(byte \<times> byte) list" where
  "fixed_length_commands =
     [(CMD_STEPPER_MOVE_STEPS, 4), (CMD_STEPPER_MOVE_AT_SPEED, 4),
      (CMD_STEPPER_SET_SPEED_LIMITS, 8), (CMD_STEPPER_SET_ACCELERATION, 4),
      (CMD_STEPPER_IS_STOPPED, 0), (CMD_STEPPER_GET_POSITION, 0),
      (CMD_STEPPER_SET_POSITION, 4), (CMD_STEPPER_HOME, 12),
      (CMD_STEPPER_DRV_SET_ENABLED, 4), (CMD_STEPPER_DRV_SET_MICROSTEPS, 4),
      (CMD_STEPPER_DRV_SET_CURRENT, 12), (CMD_STEPPER_DRV_READ_REGISTER, 4),
      (CMD_STEPPER_DRV_WRITE_REGISTER, 8), (CMD_DIGITAL_READ, 0), (CMD_DIGITAL_WRITE, 4)]"

text \<open>
  Two requests with the same header fields and the same first \<open>payload_length\<close> payload
  bytes.
\<close>

definition same_request :: "message \<Rightarrow> message \<Rightarrow> bool" where
  "same_request m1 m2 =
     (dev_address m1 = dev_address m2 \<and> command m1 = command m2 \<and>
      channel m1 = channel m2 \<and> payload_length m1 = payload_length m2 \<and>
      take (unat (payload_length m1)) (payload m1) =
      take (unat (payload_length m1)) (payload m2))"

text \<open>
  The loop on a freshly started board, at the moment the bytes \<open>m\<close> followed by their checksum
  have been decoded and checked: \<open>msg_len\<close> counts \<open>m\<close> alone.
\<close>

definition received :: "byte list \<Rightarrow> firmware" where
  "received m =
     \<lparr>rx_buffer = [],
      rx_message = with_crc m @ replicate (RX_MESSAGE_SIZE - (length m + 4)) 0,
      msg_len = int (length m), device = initialize_hardware\<rparr>"

text \<open>
  What processing a message leaves to be seen: the devices, the buffers written to the host, and
  whether \<open>msg_len\<close> was cleared.
\<close>

definition effects ::
  "fault + firmware \<times> byte list list \<Rightarrow> fault + device \<times> byte list list \<times> bool" where
  "effects r = map_sum id (\<lambda>(fw, out). (device fw, out, msg_len fw = 0)) r"

section \<open>Properties\<close>

lemmas command_codes =
  CMD_INIT_def CMD_PING_def CMD_STEPPER_MOVE_STEPS_def CMD_STEPPER_MOVE_AT_SPEED_def
  CMD_STEPPER_SET_SPEED_LIMITS_def CMD_STEPPER_SET_ACCELERATION_def CMD_STEPPER_IS_STOPPED_def
  CMD_STEPPER_GET_POSITION_def CMD_STEPPER_SET_POSITION_def CMD_STEPPER_HOME_def
  CMD_STEPPER_DRV_SET_ENABLED_def CMD_STEPPER_DRV_SET_MICROSTEPS_def
  CMD_STEPPER_DRV_SET_CURRENT_def CMD_STEPPER_DRV_READ_REGISTER_def
  CMD_STEPPER_DRV_WRITE_REGISTER_def CMD_DIGITAL_READ_def CMD_DIGITAL_WRITE_def
  CMD_BAD_COMMAND_def

lemmas handlers =
  handle_INIT_def handle_PING_def handle_MOVE_STEPS_def handle_MOVE_AT_SPEED_def
  handle_SET_SPEED_LIMITS_def handle_SET_ACCELERATION_def handle_IS_STOPPED_def
  handle_GET_POSITION_def handle_SET_POSITION_def handle_HOME_def handle_DRV_SET_ENABLED_def
  handle_DRV_SET_MICROSTEPS_def handle_DRV_SET_CURRENT_def handle_DRV_READ_REGISTER_def
  handle_DRV_WRITE_REGISTER_def handle_DIGITAL_READ_def handle_DIGITAL_WRITE_def

subsection \<open>Buffers\<close>

lemma nth_of_take:
  assumes "take n p = take n q" and "i < n"
  shows "p ! i = q ! i"
  using assms by (metis nth_take)

lemma load32_take:
  assumes "take n p = take n q" and "off + 4 \<le> n"
  shows "load32 p off = load32 q off"
  using assms(2) by (simp add: load32_def nth_of_take [OF assms(1)])

lemma load32_append: "off + 4 \<le> length xs \<Longrightarrow> load32 (xs @ ys) off = load32 xs off"
  by (simp add: load32_def nth_append)

subsection \<open>The receive loop\<close>

lemma receive_char_stores:
  assumes "c \<noteq> 0" and "length (rx_buffer fw) < RX_BUFFER_SIZE"
  shows "receive_char pf c fw = Inr (fw\<lparr>rx_buffer := rx_buffer fw @ [c]\<rparr>, False)"
  using assms by (simp add: receive_char_def)

lemma receive_loop_chars:
  assumes "0 \<notin> set bs" and "length (rx_buffer fw) + length bs \<le> RX_BUFFER_SIZE"
  shows "receive_loop pf (map Char bs @ es) fw =
         receive_loop pf es (fw\<lparr>rx_buffer := rx_buffer fw @ bs\<rparr>)"
  using assms
proof (induction bs arbitrary: fw)
  case Nil
  show ?case by simp
next
  case (Cons b bs)
  from Cons.prems have b: "b \<noteq> 0" and room: "length (rx_buffer fw) < RX_BUFFER_SIZE"
    by auto
  let ?fw = "fw\<lparr>rx_buffer := rx_buffer fw @ [b]\<rparr>"
  have "receive_loop pf (map Char (b # bs) @ es) fw = receive_loop pf (map Char bs @ es) ?fw"
    by (simp add: receive_char_stores [OF b room])
  also have "\<dots> = receive_loop pf es (?fw\<lparr>rx_buffer := rx_buffer ?fw @ bs\<rparr>)"
    using Cons.prems by (intro Cons.IH) auto
  finally show ?case by simp
qed

lemma receive_char_accepts:
  assumes "8 \<le> length (rx_buffer fw)"
    and "COBS_decode pf (rx_buffer fw) RX_MESSAGE_SIZE = Some d"
    and "4 \<le> length d" and "length d \<le> RX_MESSAGE_SIZE"
    and "d ! 0 = DEVICE_ADDRESS"
    and "crc32 (take (length d - 4) d) = load32 d (length d - 4)"
  shows "receive_char pf 0 fw =
         Inr (fw\<lparr>rx_buffer := [], rx_message := d @ drop (length d) (rx_message fw),
                   msg_len := int (length d) - 4\<rparr>, True)"
proof -
  from assms(3) have "d \<noteq> []" by auto
  with assms show ?thesis
    by (simp add: receive_char_def Let_def nth_append load32_append)
qed

lemma receive_char_rejects:
  assumes "8 \<le> length (rx_buffer fw)"
    and "COBS_decode pf (rx_buffer fw) RX_MESSAGE_SIZE = Some d"
    and "4 \<le> length d" and "length d \<le> RX_MESSAGE_SIZE"
    and "d ! 0 \<noteq> DEVICE_ADDRESS \<or>
         crc32 (take (length d - 4) d) \<noteq> load32 d (length d - 4)"
  shows "receive_char pf 0 fw =
         Inr (fw\<lparr>rx_buffer := [], rx_message := d @ drop (length d) (rx_message fw),
                   msg_len := - 1\<rparr>, True)"
proof -
  from assms(3) have "d \<noteq> []" by auto
  with assms show ?thesis
    by (auto simp add: receive_char_def Let_def nth_append load32_append)
qed

lemma receive_char_short:
  assumes "length (rx_buffer fw) < 8"
  shows "receive_char pf 0 fw = Inr (fw\<lparr>msg_len := 0\<rparr>, True)"
  using assms by (simp add: receive_char_def)

lemma process_message_idle: "msg_len fw \<le> 0 \<Longrightarrow> process_message pf fw = Inr (fw, [])"
  by (simp add: process_message_def)

lemma main_loop_frame:
  assumes empty: "rx_buffer fw = []"
    and stuffed: "0 \<notin> set stuffed" "8 \<le> length stuffed" "length stuffed \<le> RX_BUFFER_SIZE"
    and rx: "receive_char pf 0 (fw\<lparr>rx_buffer := stuffed\<rparr>) = Inr (fw1, True)"
  shows "main_loop pf (map Char stuffed @ Char 0 # es) fw =
     (case process_message pf fw1 of
        Inl f \<Rightarrow> Inl f
      | Inr (fw2, out) \<Rightarrow>
          (case main_loop pf es fw2 of
             Inl f \<Rightarrow> Inl f
           | Inr (fw3, out') \<Rightarrow> Inr (fw3, out @ out')))"
proof -
  from stuffed(2) obtain s ss where s: "stuffed = s # ss"
    by (cases stuffed) auto
  have "receive_loop pf (map Char stuffed @ Char 0 # es) fw =
        receive_loop pf (Char 0 # es) (fw\<lparr>rx_buffer := rx_buffer fw @ stuffed\<rparr>)"
    using stuffed empty by (intro receive_loop_chars) auto
  also have "\<dots> = Inr (fw1, es)"
    using rx by (simp add: empty)
  finally have "receive_loop pf (Char s # map Char ss @ Char 0 # es) fw = Inr (fw1, es)"
    by (simp add: s)
  then show ?thesis
    by (simp add: s)
qed

subsection \<open>Argument errors\<close>

lemma dispatch_axis_channel:
  assumes "command msg \<in> set axis_commands" and "STEPPER_COUNT \<le> channel msg"
  shows "dispatch pf msg dev = Inr (Break (bad_arguments msg), dev)"
proof -
  from assms(2) have ch: "\<not> channel msg < STEPPER_COUNT" by (simp add: not_less)
  from assms(1) show ?thesis
    unfolding axis_commands_def
    by (auto simp: dispatch_def command_codes handlers ch)
qed

lemma dispatch_wrong_length:
  assumes "(command msg, n) \<in> set fixed_length_commands" and "payload_length msg \<noteq> n"
  shows "dispatch pf msg dev = Inr (Break (bad_arguments msg), dev)"
  using assms unfolding fixed_length_commands_def
  by (auto simp: dispatch_def command_codes handlers)

lemma transmit_bad_arguments:
  "transmit pf (bad_arguments msg) =
     Inr (COBS_encode pf
            (with_crc [dev_address msg, command msg OR 0x80, channel msg, 0]) TX_BUFFER_SIZE)"
  by (simp add: transmit_def bad_arguments_def reply_def message_bytes_def TX_MESSAGE_SIZE_def)

lemma process_message_bad_arguments:
  assumes "0 < msg_len fw" and "msg = as_message (rx_message fw)"
    and "dispatch pf msg (device fw) = Inr (Break (bad_arguments msg), device fw)"
  shows "process_message pf fw =
     (case COBS_encode pf
             (with_crc [dev_address msg, command msg OR 0x80, channel msg, 0]) TX_BUFFER_SIZE of
        None \<Rightarrow> Inr (fw, [])
      | Some tx \<Rightarrow> Inr (fw\<lparr>msg_len := 0\<rparr>, [tx]))"
  using assms
  by (simp add: process_message_def transmit_bad_arguments split: option.split)

lemma invalid_microsteps_no_response:
  assumes "0 < msg_len fw"
    and "command (as_message (rx_message fw)) = CMD_STEPPER_DRV_SET_MICROSTEPS"
    and "payload_length (as_message (rx_message fw)) = 4"
    and "channel (as_message (rx_message fw)) < STEPPER_COUNT"
    and "load32 (payload (as_message (rx_message fw))) 0 \<notin> {1, 2, 4, 8, 16, 32}"
  shows "dispatch pf (as_message (rx_message fw)) (device fw) =
           Inr (Continue (bad_arguments (as_message (rx_message fw))), device fw)"
    and "process_message pf fw = Inr (fw, [])"
proof -
  show d: "dispatch pf (as_message (rx_message fw)) (device fw) =
           Inr (Continue (bad_arguments (as_message (rx_message fw))), device fw)"
    using assms(2-5) by (simp add: dispatch_def command_codes handle_DRV_SET_MICROSTEPS_def)
  show "process_message pf fw = Inr (fw, [])"
    using assms(1) by (simp add: process_message_def d)
qed

subsection \<open>Start-up, descriptor and codec\<close>

lemma length_configuration_json: "length configuration_json = 154"
  by code_simp

lemma received_fields:
  "msg_len (received m) = int (length m)"
  "device (received m) = initialize_hardware"
  "rx_message (received m) = with_crc m @ replicate (RX_MESSAGE_SIZE - (length m + 4)) 0"
  by (simp_all add: received_def)

lemma length_with_crc: "length (with_crc m) = length m + 4"
  by (simp add: with_crc_def store32_def)

lemma stepper_indices: "[0 ..< unat STEPPER_COUNT] = [0, 1, 2, 3]"
  by (simp add: STEPPER_COUNT_def upt_rec)

lemma output_indices: "[0 ..< unat DIGITAL_OUTPUT_COUNT] = [0, 1]"
  by (simp add: DIGITAL_OUTPUT_COUNT_def upt_rec)

lemma dump_configuration_246:
  "dump_configuration 246 = (154, map of_char configuration_json @ [0])"
  by (simp add: dump_configuration_def length_configuration_json)

lemma handle_INIT_result:
  assumes "steppers dev = [s0, s1, s2, s3]"
  shows "handle_INIT msg dev =
     Inr (Break (reply msg CMD_INIT 154 (map of_char configuration_json @ [0])),
          dev\<lparr>steppers := map (\<lambda>s. snd (Stepper_moveAtSpeed 0 s)) [s0, s1, s2, s3],
               gpio_out := (gpio_out dev)(14 := False, 15 := False)\<rparr>)"
  using assms
  by (simp add: handle_INIT_def stepper_indices output_indices dump_configuration_246
      set_stepper_def gpio_put_def digital_output_pins_def)

lemma length_4_conv: "length xs = 4 \<Longrightarrow> \<exists>a b c d. xs = [a, b, c, d]"
  by (auto simp: numeral_eq_Suc length_Suc_conv)

lemma cobs_stuff_length:
  "length run + length xs \<le> 253 \<Longrightarrow> length (cobs_stuff run xs) = Suc (length run + length xs)"
  by (induction xs arbitrary: run) auto

lemma cobs_encode_fits:
  assumes "length xs \<le> 253"
  shows "cobs_encode xs TX_BUFFER_SIZE = Some (cobs_stuff [] xs)"
  using assms cobs_stuff_length [of "[]" xs]
  by (simp add: cobs_encode_def TX_BUFFER_SIZE_def)

lemma replicate_4: "replicate 4 x = [x, x, x, x]"
  by (simp add: numeral_eq_Suc)

lemma initialize_hardware_steppers:
  "steppers initialize_hardware =
     [Stepper_setSpeedLimits 16 4000 (Stepper_setAcceleration 20000 (Stepper_initialize Stepper_new)),
      Stepper_setSpeedLimits 16 4000 (Stepper_setAcceleration 20000 (Stepper_initialize Stepper_new)),
      Stepper_setSpeedLimits 16 4000 (Stepper_setAcceleration 20000 (Stepper_initialize Stepper_new)),
      Stepper_setSpeedLimits 16 4000 (Stepper_setAcceleration 20000 (Stepper_initialize Stepper_new))]"
  by (simp add: initialize_hardware_def STEPPER_COUNT_def replicate_4)

lemma moveAtSpeed_0:
  "mode (snd (Stepper_moveAtSpeed 0 s)) = RUN_AT_SPEED"
  "target_rate (snd (Stepper_moveAtSpeed 0 s)) = 0"
  "\<not> Stepper_isStopped (snd (Stepper_moveAtSpeed 0 s))"
  by (simp_all add: Stepper_moveAtSpeed_def Stepper_isStopped_def)

subsection \<open>Per-axis commands\<close>

text \<open>
  C7. For every per-axis command (the stepper motion commands and the stepper driver commands), a
  verified message whose channel is at least the axis count yields the response
  \<open>command | 0x80\<close> with payload length 0: that is what the switch produces and what is handed
  to the encoder, and the devices are left as they were, so that no axis or driver operation took
  place.
\<close>

theorem axis_channel_out_of_range:
  assumes "0 < msg_len fw" and "msg = as_message (rx_message fw)"
    and "command msg \<in> set axis_commands" and "STEPPER_COUNT \<le> channel msg"
  shows "dispatch pf msg (device fw) = Inr (Break (bad_arguments msg), device fw) \<and>
         process_message pf fw =
           (case COBS_encode pf
                   (with_crc [dev_address msg, command msg OR 0x80, channel msg, 0])
                   TX_BUFFER_SIZE of
              None \<Rightarrow> Inr (fw, [])
            | Some tx \<Rightarrow> Inr (fw\<lparr>msg_len := 0\<rparr>, [tx]))"
proof -
  have d: "dispatch pf msg (device fw) = Inr (Break (bad_arguments msg), device fw)"
    using assms(3,4) by (rule dispatch_axis_channel)
  with assms(1,2) show ?thesis
    by (simp add: process_message_bad_arguments)
qed

lemma encoded_0x90: "cobs_encode (with_crc [0, 0x90, 4, 0]) 255 = Some [0x01, 0x03, 0x90, 0x04, 0x05, 0xE8, 0xA2, 0x3B, 0xB8]"
  by code_simp

theorem axis_channel_out_of_range_witness:
  "process_message bench (received [0, 0x10, 4, 4, 1, 0, 0, 0]) =
     Inr ((received [0, 0x10, 4, 4, 1, 0, 0, 0])\<lparr>msg_len := 0\<rparr>,
          [[0x01, 0x03, 0x90, 0x04, 0x05, 0xE8, 0xA2, 0x3B, 0xB8]])"
proof -
  define fw where "fw = received [0, 0x10, 4, 4, 1, 0, 0, 0]"
  define msg where "msg = as_message (rx_message fw)"
  have m: "dev_address msg = 0" "command msg = 0x10" "channel msg = 4"
    by (simp_all add: msg_def fw_def received_fields as_message_def with_crc_def)
  have "process_message bench fw =
           (case COBS_encode bench
                   (with_crc [dev_address msg, command msg OR 0x80, channel msg, 0])
                   TX_BUFFER_SIZE of
              None \<Rightarrow> Inr (fw, [])
            | Some tx \<Rightarrow> Inr (fw\<lparr>msg_len := 0\<rparr>, [tx]))"
    using axis_channel_out_of_range [of fw msg bench]
    by (simp add: msg_def [symmetric] m axis_commands_def command_codes STEPPER_COUNT_def)
       (simp add: fw_def received_fields)
  then show ?thesis
    by (simp add: m bench_def TX_BUFFER_SIZE_def encoded_0x90 fw_def)
qed

subsection \<open>Payload lengths\<close>

text \<open>
  C3 does not hold of the source. The case of INIT has no test of \<open>payload_length\<close>: a verified
  INIT message with \<open>payload_length = 1\<close> is answered with command \<open>0x01\<close> and the 154-byte
  descriptor, and every axis has been commanded. IS_STOPPED, whose expected length is 0 as
  well, is answered \<open>0x94\<close> with payload length 0 on the same input, the devices left as they
  were.
\<close>

theorem init_with_payload_is_not_rejected:
  "(case dispatch bench (as_message (rx_message (received [0, 0x01, 0, 1, 7]))) initialize_hardware of
      Inl f \<Rightarrow> False
    | Inr (Continue resp, dev) \<Rightarrow> False
    | Inr (Break resp, dev) \<Rightarrow>
        command resp = 0x01 \<and> payload_length resp = 154 \<and>
        map mode (steppers dev) = [RUN_AT_SPEED, RUN_AT_SPEED, RUN_AT_SPEED, RUN_AT_SPEED] \<and>
        map mode (steppers initialize_hardware) = [STOPPED, STOPPED, STOPPED, STOPPED]) \<and>
   dispatch bench (as_message (rx_message (received [0, 0x14, 0, 1, 7]))) initialize_hardware =
     Inr (Break \<lparr>dev_address = 0, command = 0x94, channel = 0, payload_length = 0,
                  payload = []\<rparr>, initialize_hardware)"
proof -
  define msg where "msg = as_message (rx_message (received [0, 0x01, 0, 1, 7]))"
  define sib where "sib = as_message (rx_message (received [0, 0x14, 0, 1, 7]))"
  have c: "command msg = CMD_INIT"
    by (simp add: msg_def received_fields as_message_def with_crc_def CMD_INIT_def)
  have s: "dev_address sib = 0" "command sib = 0x14" "channel sib = 0" "payload_length sib = 1"
    by (simp_all add: sib_def received_fields as_message_def with_crc_def)
  have "(command sib, 0) \<in> set fixed_length_commands"
    by (simp add: s fixed_length_commands_def command_codes)
  then have sd: "dispatch bench sib initialize_hardware =
      Inr (Break (bad_arguments sib), initialize_hardware)"
    by (rule dispatch_wrong_length) (simp add: s)
  have "dispatch bench msg initialize_hardware = handle_INIT msg initialize_hardware"
    by (simp add: dispatch_def c)
  then show ?thesis
    unfolding msg_def [symmetric] sib_def [symmetric]
    by (simp add: handle_INIT_result [OF initialize_hardware_steppers] reply_def CMD_INIT_def
        moveAtSpeed_0 initialize_hardware_steppers Stepper_setSpeedLimits_def
        Stepper_setAcceleration_def Stepper_initialize_def sd bad_arguments_def s)
qed

text \<open>
  The case of HOME compares \<open>payload_length\<close> with 12, where the command table of the
  specification lists 4 + 4 + 1 bytes: a HOME message of 9 payload bytes is answered \<open>0x97\<close>, one of
  12 is accepted.
\<close>

lemma home_length_is_twelve:
  "(case dispatch bench
           (as_message (rx_message (received [0, 0x17, 0, 9, 1, 0, 0, 0, 0, 0, 0, 0, 1])))
           initialize_hardware of
      Inl f \<Rightarrow> False
    | Inr (Continue resp, dev) \<Rightarrow> False
    | Inr (Break resp, dev) \<Rightarrow> command resp = 0x97 \<and> payload_length resp = 0) \<and>
   (case dispatch bench
           (as_message (rx_message (received [0, 0x17, 0, 12, 1, 0, 0, 0, 0, 0, 0, 0, 1, 0, 0, 0])))
           initialize_hardware of
      Inl f \<Rightarrow> False
    | Inr (Continue resp, dev) \<Rightarrow> False
    | Inr (Break resp, dev) \<Rightarrow> command resp = 0x17 \<and> payload_length resp = 0)"
proof -
  define m9 where
    "m9 = as_message (rx_message (received [0, 0x17, 0, 9, 1, 0, 0, 0, 0, 0, 0, 0, 1]))"
  define m12 where
    "m12 = as_message (rx_message (received [0, 0x17, 0, 12, 1, 0, 0, 0, 0, 0, 0, 0, 1, 0, 0, 0]))"
  have a: "command m9 = 0x17" "payload_length m9 = 9"
    by (simp_all add: m9_def received_fields as_message_def with_crc_def)
  have b: "command m12 = 0x17" "payload_length m12 = 12" "channel m12 = 0"
    "load32 (payload m12) 4 = 0"
    by (simp_all add: m12_def received_fields as_message_def with_crc_def load32_def)
  have "(command m9, 12) \<in> set fixed_length_commands"
    by (simp add: a fixed_length_commands_def command_codes)
  then have d9: "dispatch bench m9 initialize_hardware =
      Inr (Break (bad_arguments m9), initialize_hardware)"
    by (rule dispatch_wrong_length) (simp add: a)
  have d12: "\<exists>dev. dispatch bench m12 initialize_hardware =
      Inr (Break (reply m12 (command m12) 0 []), dev)"
    by (simp add: dispatch_def command_codes handle_HOME_def b STEPPER_COUNT_def
        DIGITAL_INPUT_COUNT_def array_read_def digital_input_pins_def)
  then obtain dev where d12': "dispatch bench m12 initialize_hardware =
      Inr (Break (reply m12 (command m12) 0 []), dev)" by blast
  show ?thesis
    unfolding m9_def [symmetric] m12_def [symmetric]
    by (simp add: d9 d12' bad_arguments_def reply_def a b)
qed

text \<open>
  What the switch does for the commands that have a length test: any other \<open>payload_length\<close>
  yields the response \<open>command | 0x80\<close> with payload length 0 and leaves the devices as they
  were, while INIT is processed as if the field were 0.
\<close>

lemma wrong_payload_length_is_rejected:
  assumes "0 < msg_len fw" and "msg = as_message (rx_message fw)"
    and "(command msg, n) \<in> set fixed_length_commands" and "payload_length msg \<noteq> n"
    and "command init = CMD_INIT"
  shows "dispatch pf msg (device fw) = Inr (Break (bad_arguments msg), device fw) \<and>
         process_message pf fw =
           (case COBS_encode pf
                   (with_crc [dev_address msg, command msg OR 0x80, channel msg, 0])
                   TX_BUFFER_SIZE of
              None \<Rightarrow> Inr (fw, [])
            | Some tx \<Rightarrow> Inr (fw\<lparr>msg_len := 0\<rparr>, [tx])) \<and>
         dispatch pf init dev = dispatch pf (init\<lparr>payload_length := 0\<rparr>) dev"
proof -
  have d: "dispatch pf msg (device fw) = Inr (Break (bad_arguments msg), device fw)"
    using assms(3,4) by (rule dispatch_wrong_length)
  have i: "dispatch pf init dev = dispatch pf (init\<lparr>payload_length := 0\<rparr>) dev"
    using assms(5) by (simp add: dispatch_def handle_INIT_def reply_def)
  from d i assms(1,2) show ?thesis
    by (simp add: process_message_bad_arguments)
qed

lemma encoded_0x94:
  "cobs_encode (with_crc [0, 0x94, 0, 0]) 255 =
     Some [0x01, 0x02, 0x94, 0x01, 0x05, 0x30, 0xCF, 0x5E, 0xDB]"
  by code_simp

lemma wrong_payload_length_is_rejected_example:
  "process_message bench (received [0, 0x14, 0, 2, 9, 9]) =
     Inr ((received [0, 0x14, 0, 2, 9, 9])\<lparr>msg_len := 0\<rparr>,
          [[0x01, 0x02, 0x94, 0x01, 0x05, 0x30, 0xCF, 0x5E, 0xDB]]) \<and>
   dispatch bench (as_message (rx_message (received [0, 0x01, 0, 1, 7]))) initialize_hardware =
   dispatch bench ((as_message (rx_message (received [0, 0x01, 0, 1, 7])))\<lparr>payload_length := 0\<rparr>)
     initialize_hardware"
proof -
  define fw where "fw = received [0, 0x14, 0, 2, 9, 9]"
  define msg where "msg = as_message (rx_message fw)"
  define init where "init = as_message (rx_message (received [0, 0x01, 0, 1, 7]))"
  have m: "dev_address msg = 0" "command msg = 0x14" "channel msg = 0" "payload_length msg = 2"
    by (simp_all add: msg_def fw_def received_fields as_message_def with_crc_def)
  have i: "command init = CMD_INIT"
    by (simp add: init_def received_fields as_message_def with_crc_def CMD_INIT_def)
  have pos: "0 < msg_len fw"
    by (simp add: fw_def received_fields)
  have tab: "(command msg, 0) \<in> set fixed_length_commands"
    by (simp add: m fixed_length_commands_def command_codes)
  have len: "payload_length msg \<noteq> 0"
    by (simp add: m)
  from wrong_payload_length_is_rejected [OF pos msg_def tab len i, of bench initialize_hardware]
  have "process_message bench fw =
           (case COBS_encode bench (with_crc [0, 0x94, 0, 0]) TX_BUFFER_SIZE of
              None \<Rightarrow> Inr (fw, [])
            | Some tx \<Rightarrow> Inr (fw\<lparr>msg_len := 0\<rparr>, [tx]))"
    and "dispatch bench init initialize_hardware =
         dispatch bench (init\<lparr>payload_length := 0\<rparr>) initialize_hardware"
    by (simp_all add: m)
  then show ?thesis
    unfolding fw_def [symmetric] init_def [symmetric]
    by (simp add: bench_def TX_BUFFER_SIZE_def encoded_0x94)
qed

subsection \<open>What the switch reads\<close>

lemma same_request_reply: "same_request m1 m2 \<Longrightarrow> reply m1 c n d = reply m2 c n d"
  by (simp add: same_request_def reply_def)

lemma same_request_bad_arguments:
  "same_request m1 m2 \<Longrightarrow> bad_arguments m1 = bad_arguments m2"
  by (simp add: same_request_def bad_arguments_def reply_def)

lemma same_request_load32:
  assumes "same_request m1 m2" and "off + 4 \<le> unat (payload_length m1)"
  shows "load32 (payload m1) off = load32 (payload m2) off"
  using assms by (auto simp: same_request_def intro: load32_take)

lemma same_request_nth:
  assumes "same_request m1 m2" and "i < unat (payload_length m1)"
  shows "payload m1 ! i = payload m2 ! i"
  using assms by (auto simp: same_request_def intro: nth_of_take)

lemma same_INIT: "same_request m1 m2 \<Longrightarrow> handle_INIT m1 dev = handle_INIT m2 dev"
  by (simp add: Let_def handle_INIT_def same_request_reply)

lemma same_PING:
  assumes s: "same_request m1 m2" and len: "length (payload m1) = length (payload m2)"
  shows "handle_PING m1 dev = handle_PING m2 dev"
proof -
  from s have n: "payload_length m1 = payload_length m2"
    and t: "take (unat (payload_length m2)) (payload m1) =
            take (unat (payload_length m2)) (payload m2)"
    by (auto simp: same_request_def)
  show ?thesis
    by (simp add: Let_def handle_PING_def same_request_reply [OF s] n t len)
qed

lemma same_MOVE_STEPS:
  assumes s: "same_request m1 m2"
  shows "handle_MOVE_STEPS m1 dev = handle_MOVE_STEPS m2 dev"
proof (cases "payload_length m1 = 4")
  case True
  have p: "load32 (payload m1) 0 = load32 (payload m2) 0"
    by (rule same_request_load32 [OF s], simp add: True)+
  from s True show ?thesis
    by (simp add: Let_def handle_MOVE_STEPS_def p same_request_reply [OF s]
        same_request_bad_arguments [OF s] same_request_def
        split: sum.split option.split)
next
  case False
  with s show ?thesis
    by (simp add: Let_def handle_MOVE_STEPS_def same_request_bad_arguments [OF s] same_request_def)
qed

lemma same_MOVE_AT_SPEED:
  assumes s: "same_request m1 m2"
  shows "handle_MOVE_AT_SPEED m1 dev = handle_MOVE_AT_SPEED m2 dev"
proof (cases "payload_length m1 = 4")
  case True
  have p: "load32 (payload m1) 0 = load32 (payload m2) 0"
    by (rule same_request_load32 [OF s], simp add: True)+
  from s True show ?thesis
    by (simp add: Let_def handle_MOVE_AT_SPEED_def p same_request_reply [OF s]
        same_request_bad_arguments [OF s] same_request_def
        split: sum.split option.split)
next
  case False
  with s show ?thesis
    by (simp add: Let_def handle_MOVE_AT_SPEED_def same_request_bad_arguments [OF s] same_request_def)
qed

lemma same_SET_SPEED_LIMITS:
  assumes s: "same_request m1 m2"
  shows "handle_SET_SPEED_LIMITS m1 dev = handle_SET_SPEED_LIMITS m2 dev"
proof (cases "payload_length m1 = 8")
  case True
  have p: "load32 (payload m1) 0 = load32 (payload m2) 0"
    "load32 (payload m1) 4 = load32 (payload m2) 4"
    by (rule same_request_load32 [OF s], simp add: True)+
  from s True show ?thesis
    by (simp add: Let_def handle_SET_SPEED_LIMITS_def p same_request_reply [OF s]
        same_request_bad_arguments [OF s] same_request_def
        split: sum.split option.split)
next
  case False
  with s show ?thesis
    by (simp add: Let_def handle_SET_SPEED_LIMITS_def same_request_bad_arguments [OF s] same_request_def)
qed

lemma same_SET_ACCELERATION:
  assumes s: "same_request m1 m2"
  shows "handle_SET_ACCELERATION m1 dev = handle_SET_ACCELERATION m2 dev"
proof (cases "payload_length m1 = 4")
  case True
  have p: "load32 (payload m1) 0 = load32 (payload m2) 0"
    by (rule same_request_load32 [OF s], simp add: True)+
  from s True show ?thesis
    by (simp add: Let_def handle_SET_ACCELERATION_def p same_request_reply [OF s]
        same_request_bad_arguments [OF s] same_request_def
        split: sum.split option.split)
next
  case False
  with s show ?thesis
    by (simp add: Let_def handle_SET_ACCELERATION_def same_request_bad_arguments [OF s] same_request_def)
qed

lemma same_IS_STOPPED:
  assumes s: "same_request m1 m2"
  shows "handle_IS_STOPPED m1 dev = handle_IS_STOPPED m2 dev"
proof (cases "payload_length m1 = 0")
  case True
  from s True show ?thesis
    by (simp add: Let_def handle_IS_STOPPED_def same_request_reply [OF s]
        same_request_bad_arguments [OF s] same_request_def
        split: sum.split option.split)
next
  case False
  with s show ?thesis
    by (simp add: Let_def handle_IS_STOPPED_def same_request_bad_arguments [OF s] same_request_def)
qed

lemma same_GET_POSITION:
  assumes s: "same_request m1 m2"
  shows "handle_GET_POSITION m1 dev = handle_GET_POSITION m2 dev"
proof (cases "payload_length m1 = 0")
  case True
  from s True show ?thesis
    by (simp add: Let_def handle_GET_POSITION_def same_request_reply [OF s]
        same_request_bad_arguments [OF s] same_request_def
        split: sum.split option.split)
next
  case False
  with s show ?thesis
    by (simp add: Let_def handle_GET_POSITION_def same_request_bad_arguments [OF s] same_request_def)
qed

lemma same_SET_POSITION:
  assumes s: "same_request m1 m2"
  shows "handle_SET_POSITION m1 dev = handle_SET_POSITION m2 dev"
proof (cases "payload_length m1 = 4")
  case True
  have p: "load32 (payload m1) 0 = load32 (payload m2) 0"
    by (rule same_request_load32 [OF s], simp add: True)+
  from s True show ?thesis
    by (simp add: Let_def handle_SET_POSITION_def p same_request_reply [OF s]
        same_request_bad_arguments [OF s] same_request_def
        split: sum.split option.split)
next
  case False
  with s show ?thesis
    by (simp add: Let_def handle_SET_POSITION_def same_request_bad_arguments [OF s] same_request_def)
qed

lemma same_HOME:
  assumes s: "same_request m1 m2"
  shows "handle_HOME m1 dev = handle_HOME m2 dev"
proof (cases "payload_length m1 = 12")
  case True
  have p: "load32 (payload m1) 0 = load32 (payload m2) 0"
    "load32 (payload m1) 4 = load32 (payload m2) 4"
    "payload m1 ! 8 = payload m2 ! 8"
    by ((rule same_request_load32 [OF s], simp add: True)+, (rule same_request_nth [OF s], simp add: True)+)
  from s True show ?thesis
    by (simp add: Let_def handle_HOME_def p same_request_reply [OF s]
        same_request_bad_arguments [OF s] same_request_def
        split: sum.split option.split)
next
  case False
  with s show ?thesis
    by (simp add: Let_def handle_HOME_def same_request_bad_arguments [OF s] same_request_def)
qed

lemma same_DRV_SET_ENABLED:
  assumes s: "same_request m1 m2"
  shows "handle_DRV_SET_ENABLED m1 dev = handle_DRV_SET_ENABLED m2 dev"
proof (cases "payload_length m1 = 4")
  case True
  have p: "load32 (payload m1) 0 = load32 (payload m2) 0"
    by (rule same_request_load32 [OF s], simp add: True)+
  from s True show ?thesis
    by (simp add: Let_def handle_DRV_SET_ENABLED_def p same_request_reply [OF s]
        same_request_bad_arguments [OF s] same_request_def
        split: sum.split option.split)
next
  case False
  with s show ?thesis
    by (simp add: Let_def handle_DRV_SET_ENABLED_def same_request_bad_arguments [OF s] same_request_def)
qed

lemma same_DRV_SET_MICROSTEPS:
  assumes s: "same_request m1 m2"
  shows "handle_DRV_SET_MICROSTEPS m1 dev = handle_DRV_SET_MICROSTEPS m2 dev"
proof (cases "payload_length m1 = 4")
  case True
  have p: "load32 (payload m1) 0 = load32 (payload m2) 0"
    by (rule same_request_load32 [OF s], simp add: True)+
  from s True show ?thesis
    by (simp add: Let_def handle_DRV_SET_MICROSTEPS_def p same_request_reply [OF s]
        same_request_bad_arguments [OF s] same_request_def
        split: sum.split option.split)
next
  case False
  with s show ?thesis
    by (simp add: Let_def handle_DRV_SET_MICROSTEPS_def same_request_bad_arguments [OF s] same_request_def)
qed

lemma same_DRV_SET_CURRENT:
  assumes s: "same_request m1 m2"
  shows "handle_DRV_SET_CURRENT m1 dev = handle_DRV_SET_CURRENT m2 dev"
proof (cases "payload_length m1 = 12")
  case True
  have p: "load32 (payload m1) 0 = load32 (payload m2) 0"
    "load32 (payload m1) 4 = load32 (payload m2) 4"
    "load32 (payload m1) 8 = load32 (payload m2) 8"
    by (rule same_request_load32 [OF s], simp add: True)+
  from s True show ?thesis
    by (simp add: Let_def handle_DRV_SET_CURRENT_def p same_request_reply [OF s]
        same_request_bad_arguments [OF s] same_request_def
        split: sum.split option.split)
next
  case False
  with s show ?thesis
    by (simp add: Let_def handle_DRV_SET_CURRENT_def same_request_bad_arguments [OF s] same_request_def)
qed

lemma same_DRV_READ_REGISTER:
  assumes s: "same_request m1 m2"
  shows "handle_DRV_READ_REGISTER pf m1 dev = handle_DRV_READ_REGISTER pf m2 dev"
proof (cases "payload_length m1 = 4")
  case True
  have p: "load32 (payload m1) 0 = load32 (payload m2) 0"
    by (rule same_request_load32 [OF s], simp add: True)+
  from s True show ?thesis
    by (simp add: Let_def handle_DRV_READ_REGISTER_def p same_request_reply [OF s]
        same_request_bad_arguments [OF s] same_request_def
        split: sum.split option.split)
next
  case False
  with s show ?thesis
    by (simp add: Let_def handle_DRV_READ_REGISTER_def same_request_bad_arguments [OF s] same_request_def)
qed

lemma same_DRV_WRITE_REGISTER:
  assumes s: "same_request m1 m2"
  shows "handle_DRV_WRITE_REGISTER m1 dev = handle_DRV_WRITE_REGISTER m2 dev"
proof (cases "payload_length m1 = 8")
  case True
  have p: "load32 (payload m1) 0 = load32 (payload m2) 0"
    "load32 (payload m1) 4 = load32 (payload m2) 4"
    by (rule same_request_load32 [OF s], simp add: True)+
  from s True show ?thesis
    by (simp add: Let_def handle_DRV_WRITE_REGISTER_def p same_request_reply [OF s]
        same_request_bad_arguments [OF s] same_request_def
        split: sum.split option.split)
next
  case False
  with s show ?thesis
    by (simp add: Let_def handle_DRV_WRITE_REGISTER_def same_request_bad_arguments [OF s] same_request_def)
qed

lemma same_DIGITAL_READ:
  assumes s: "same_request m1 m2"
  shows "handle_DIGITAL_READ pf m1 dev = handle_DIGITAL_READ pf m2 dev"
proof (cases "payload_length m1 = 0")
  case True
  from s True show ?thesis
    by (simp add: Let_def handle_DIGITAL_READ_def same_request_reply [OF s]
        same_request_bad_arguments [OF s] same_request_def
        split: sum.split option.split)
next
  case False
  with s show ?thesis
    by (simp add: Let_def handle_DIGITAL_READ_def same_request_bad_arguments [OF s] same_request_def)
qed

lemma same_DIGITAL_WRITE:
  assumes s: "same_request m1 m2"
  shows "handle_DIGITAL_WRITE m1 dev = handle_DIGITAL_WRITE m2 dev"
proof (cases "payload_length m1 = 4")
  case True
  have p: "load32 (payload m1) 0 = load32 (payload m2) 0"
    by (rule same_request_load32 [OF s], simp add: True)+
  from s True show ?thesis
    by (simp add: Let_def handle_DIGITAL_WRITE_def p same_request_reply [OF s]
        same_request_bad_arguments [OF s] same_request_def
        split: sum.split option.split)
next
  case False
  with s show ?thesis
    by (simp add: Let_def handle_DIGITAL_WRITE_def same_request_bad_arguments [OF s] same_request_def)
qed

lemmas same_handlers =
  same_INIT same_PING same_MOVE_STEPS same_MOVE_AT_SPEED same_SET_SPEED_LIMITS
  same_SET_ACCELERATION same_IS_STOPPED same_GET_POSITION same_SET_POSITION same_HOME
  same_DRV_SET_ENABLED same_DRV_SET_MICROSTEPS same_DRV_SET_CURRENT same_DRV_READ_REGISTER
  same_DRV_WRITE_REGISTER same_DIGITAL_READ same_DIGITAL_WRITE

lemma same_request_dispatch:
  assumes s: "same_request m1 m2" and len: "length (payload m1) = length (payload m2)"
  shows "dispatch pf m1 dev = dispatch pf m2 dev"
proof -
  from s have c: "command m1 = command m2"
    by (simp add: same_request_def)
  note h = same_handlers(1,3-17) [OF s] same_PING [OF s len]
  show ?thesis
    by (simp only: dispatch_def h c same_request_reply [OF s])
qed

text \<open>
  C10. What processing a verified message does to the devices and sends to the host depends on
  the header fields, the first \<open>payload_length\<close> payload bytes and the devices only: two states
  of the loop whose messages agree on these are processed alike, whatever their \<open>msg_len\<close>,
  which is consulted for \<open>0 < msg_len\<close> alone.
\<close>

theorem dispatch_ignores_frame_length:
  assumes v1: "0 < msg_len fw1" and v2: "0 < msg_len fw2"
    and s1: "length (rx_message fw1) = RX_MESSAGE_SIZE"
    and s2: "length (rx_message fw2) = RX_MESSAGE_SIZE"
    and same: "same_request (as_message (rx_message fw1)) (as_message (rx_message fw2))"
    and dev: "device fw1 = device fw2"
  shows "effects (process_message pf fw1) = effects (process_message pf fw2)"
proof -
  have "length (payload (as_message (rx_message fw1))) =
        length (payload (as_message (rx_message fw2)))"
    by (simp add: as_message_def s1 s2)
  with same have d: "dispatch pf (as_message (rx_message fw1)) (device fw1) =
      dispatch pf (as_message (rx_message fw2)) (device fw2)"
    unfolding dev by (rule same_request_dispatch)
  show ?thesis
    using v1 v2
    by (simp add: effects_def process_message_def d
        split: sum.split prod.split flow.split option.split)
qed

theorem dispatch_ignores_frame_length_witness:
  "msg_len (received [0, 0x14, 0, 0]) = 4 \<and> msg_len (received [0, 0x14, 0, 0, 9, 9, 9, 9]) = 8 \<and>
   effects (process_message bench (received [0, 0x14, 0, 0])) =
   effects (process_message bench (received [0, 0x14, 0, 0, 9, 9, 9, 9]))"
proof -
  have "same_request (as_message (rx_message (received [0, 0x14, 0, 0])))
          (as_message (rx_message (received [0, 0x14, 0, 0, 9, 9, 9, 9])))"
    by (simp add: same_request_def as_message_def received_fields with_crc_def)
  then have "effects (process_message bench (received [0, 0x14, 0, 0])) =
   effects (process_message bench (received [0, 0x14, 0, 0, 9, 9, 9, 9]))"
    by (intro dispatch_ignores_frame_length)
       (simp_all add: received_fields length_with_crc RX_MESSAGE_SIZE_def)
  then show ?thesis
    by (simp add: received_fields)
qed

subsection \<open>Dropped frames, and what a short frame leaves behind\<close>

text \<open>
  When the terminator is read and the content of \<open>rx_buffer\<close> decodes to a message whose first
  byte is not \<open>DEVICE_ADDRESS\<close>, or whose last four bytes are not the CRC-32 of the bytes before
  them, the iteration of the main loop writes nothing to the host and leaves the devices as they
  were. This speaks of the whole content of the buffer, which is the frame alone only when the
  buffer was empty before it.
\<close>

lemma rejected_frame_is_dropped:
  assumes dec: "COBS_decode pf (rx_buffer fw) RX_MESSAGE_SIZE = Some d"
    and len: "4 \<le> length d" "length d \<le> RX_MESSAGE_SIZE"
    and bad: "d ! 0 \<noteq> DEVICE_ADDRESS \<or>
              load32 d (length d - 4) \<noteq> crc32 (take (length d - 4) d)"
  shows "\<exists>fw'. main_loop pf [Char 0] fw = Inr (fw', []) \<and> device fw' = device fw \<and>
               msg_len fw' \<le> 0"
proof (cases "length (rx_buffer fw) < 8")
  case True
  then have "main_loop pf [Char 0] fw = Inr (fw\<lparr>msg_len := 0\<rparr>, [])"
    by (simp add: receive_char_short process_message_idle)
  then show ?thesis by simp
next
  case False
  then have "8 \<le> length (rx_buffer fw)" by simp
  from receive_char_rejects [OF this dec len] bad
  have "receive_char pf 0 fw =
        Inr (fw\<lparr>rx_buffer := [], rx_message := d @ drop (length d) (rx_message fw),
                  msg_len := - 1\<rparr>, True)"
    by auto
  then have "main_loop pf [Char 0] fw =
        Inr (fw\<lparr>rx_buffer := [], rx_message := d @ drop (length d) (rx_message fw),
                  msg_len := - 1\<rparr>, [])"
    by (simp add: process_message_idle)
  then show ?thesis by simp
qed

lemma foreign_frame_decodes:
  "cobs_decode [0x04, 0x05, 0x02, 0x01, 0x05, 0x01, 0xCA, 0x05, 0x0C] 254 =
     Some [5, 2, 1, 0, 0x01, 0xCA, 0x05, 0x0C]"
  by code_simp

lemma rejected_frame_is_dropped_example:
  "\<exists>fw'. main_loop bench [Char 0]
           ((boot (replicate 254 0))
              \<lparr>rx_buffer := [0x04, 0x05, 0x02, 0x01, 0x05, 0x01, 0xCA, 0x05, 0x0C]\<rparr>) =
           Inr (fw', []) \<and>
         device fw' = initialize_hardware \<and> msg_len fw' \<le> 0"
proof -
  let ?fw = "(boot (replicate 254 0))
              \<lparr>rx_buffer := [0x04, 0x05, 0x02, 0x01, 0x05, 0x01, 0xCA, 0x05, 0x0C]\<rparr>"
  let ?d = "[5, 2, 1, 0, 0x01, 0xCA, 0x05, 0x0C] :: byte list"
  have "\<exists>fw'. main_loop bench [Char 0] ?fw = Inr (fw', []) \<and> device fw' = device ?fw \<and>
               msg_len fw' \<le> 0"
  proof (rule rejected_frame_is_dropped [where d = ?d])
    show "COBS_decode bench (rx_buffer ?fw) RX_MESSAGE_SIZE = Some ?d"
      by (simp add: bench_def RX_MESSAGE_SIZE_def foreign_frame_decodes)
    show "?d ! 0 \<noteq> DEVICE_ADDRESS \<or>
          load32 ?d (length ?d - 4) \<noteq> crc32 (take (length ?d - 4) ?d)"
      by (simp add: DEVICE_ADDRESS_def)
  qed (simp_all add: RX_MESSAGE_SIZE_def)
  then show ?thesis
    by (simp add: boot_def)
qed

lemma main_loop_frame_appended:
  assumes stuffed: "0 \<notin> set stuffed" "stuffed \<noteq> []"
      "length (rx_buffer fw) + length stuffed \<le> RX_BUFFER_SIZE"
    and rx: "receive_char pf 0 (fw\<lparr>rx_buffer := rx_buffer fw @ stuffed\<rparr>) = Inr (fw1, True)"
  shows "main_loop pf (map Char stuffed @ Char 0 # es) fw =
     (case process_message pf fw1 of
        Inl f \<Rightarrow> Inl f
      | Inr (fw2, out) \<Rightarrow>
          (case main_loop pf es fw2 of
             Inl f \<Rightarrow> Inl f
           | Inr (fw3, out') \<Rightarrow> Inr (fw3, out @ out')))"
proof -
  from stuffed(2) obtain s ss where s: "stuffed = s # ss"
    by (cases stuffed) auto
  have "receive_loop pf (map Char stuffed @ Char 0 # es) fw =
        receive_loop pf (Char 0 # es) (fw\<lparr>rx_buffer := rx_buffer fw @ stuffed\<rparr>)"
    using stuffed by (intro receive_loop_chars) auto
  also have "\<dots> = Inr (fw1, es)"
    using rx by simp
  finally have "receive_loop pf (Char s # map Char ss @ Char 0 # es) fw = Inr (fw1, es)"
    by (simp add: s)
  then show ?thesis
    by (simp add: s)
qed

lemma process_message_PING:
  assumes pos: "0 < msg_len fw"
    and msg: "msg = as_message (rx_message fw)"
    and cmd: "command msg = CMD_PING"
    and len: "unat (payload_length msg) \<le> length (payload msg)"
      "unat (payload_length msg) \<le> 245"
  shows "process_message bench fw =
     Inr (fw\<lparr>msg_len := 0\<rparr>,
          [cobs_stuff []
             (with_crc ([dev_address msg, 0x02, channel msg, payload_length msg] @
                        take (unat (payload_length msg)) (payload msg)))])"
proof -
  let ?n = "unat (payload_length msg)"
  let ?resp = "reply msg CMD_PING (payload_length msg) (take ?n (payload msg))"
  have d: "dispatch bench msg (device fw) = Inr (Break ?resp, device fw)"
    using len by (simp add: dispatch_def cmd command_codes handle_PING_def TX_MESSAGE_SIZE_def)
  have b: "message_bytes ?resp =
           [dev_address msg, 0x02, channel msg, payload_length msg] @ take ?n (payload msg)"
    by (simp add: message_bytes_def reply_def CMD_PING_def)
  have "length (with_crc (message_bytes ?resp)) \<le> 253"
    using len by (simp add: b length_with_crc)
  then have e: "COBS_encode bench (with_crc (message_bytes ?resp)) TX_BUFFER_SIZE =
                Some (cobs_stuff [] (with_crc (message_bytes ?resp)))"
    using cobs_encode_fits by (simp add: bench_def)
  have t: "transmit bench ?resp = Inr (Some (cobs_stuff [] (with_crc (message_bytes ?resp))))"
    unfolding transmit_def Let_def e
    using len by (simp add: reply_def TX_MESSAGE_SIZE_def)
  show ?thesis
    using pos by (simp add: process_message_def msg [symmetric] d t b)
qed

lemma foreign_frame_alone_decodes:
  "cobs_decode [0x0A, 0x04, 0x41, 0x42, 0x43, 0x44, 0x39, 0x97, 0x6E, 0xFD] 254 =
     Some [0x04, 0x41, 0x42, 0x43, 0x44, 0x39, 0x97, 0x6E, 0xFD]"
  by code_simp

lemma foreign_frame_alone_crc:
  "crc32 [0x04, 0x41, 0x42, 0x43, 0x44] \<noteq>
   load32 [0x04, 0x41, 0x42, 0x43, 0x44, 0x39, 0x97, 0x6E, 0xFD] 5"
  by code_simp

lemma residue_and_frame_decode:
  "cobs_decode ([0x01, 0x02, 0x02] @
                [0x0A, 0x04, 0x41, 0x42, 0x43, 0x44, 0x39, 0x97, 0x6E, 0xFD]) 254 =
     Some [0, 0x02, 0, 0x04, 0x41, 0x42, 0x43, 0x44, 0x39, 0x97, 0x6E, 0xFD]"
  by code_simp

lemma residue_and_frame_crc:
  "crc32 (take (length [0, 0x02, 0, 0x04, 0x41, 0x42, 0x43, 0x44, 0x39, 0x97, 0x6E, 0xFD :: byte] - 4)
            [0, 0x02, 0, 0x04, 0x41, 0x42, 0x43, 0x44, 0x39, 0x97, 0x6E, 0xFD]) =
   load32 [0, 0x02, 0, 0x04, 0x41, 0x42, 0x43, 0x44, 0x39, 0x97, 0x6E, 0xFD]
     (length [0, 0x02, 0, 0x04, 0x41, 0x42, 0x43, 0x44, 0x39, 0x97, 0x6E, 0xFD :: byte] - 4)"
  by code_simp

lemma ping_echo_stuffed:
  "cobs_stuff [] (with_crc [0, 0x02, 0, 0x04, 0x41, 0x42, 0x43, 0x44]) =
     [0x01, 0x02, 0x02, 0x0A, 0x04, 0x41, 0x42, 0x43, 0x44, 0x39, 0x97, 0x6E, 0xFD]"
  by code_simp

text \<open>
  C8 does not hold of the source. The frame \<open>0A 04 41 42 43 44 39 97 6E FD\<close> decodes to a
  message for address 4 whose last four bytes are not its CRC-32; read on a freshly started
  board it is dropped. Read after the three bytes \<open>01 02 02\<close> and their terminator, which the
  branch for \<open>rx_buffer_pos < 8\<close> leaves in \<open>rx_buffer\<close>, it is decoded together with them, as a
  PING for address 0 with a matching CRC-32, and the echo is written to the host.
\<close>

theorem foreign_frame_after_runt_is_answered:
  "cobs_decode [0x0A, 0x04, 0x41, 0x42, 0x43, 0x44, 0x39, 0x97, 0x6E, 0xFD] 254 =
     Some [0x04, 0x41, 0x42, 0x43, 0x44, 0x39, 0x97, 0x6E, 0xFD] \<and>
   crc32 [0x04, 0x41, 0x42, 0x43, 0x44] \<noteq>
     load32 [0x04, 0x41, 0x42, 0x43, 0x44, 0x39, 0x97, 0x6E, 0xFD] 5 \<and>
   (case main_loop bench
           (map Char [0x0A, 0x04, 0x41, 0x42, 0x43, 0x44, 0x39, 0x97, 0x6E, 0xFD] @ [Char 0])
           (boot (replicate 254 0)) of
      Inl f \<Rightarrow> False
    | Inr (fw, out) \<Rightarrow> out = [] \<and> msg_len fw = - 1 \<and> rx_buffer fw = []) \<and>
   (case main_loop bench
           (map Char [0x01, 0x02, 0x02] @ [Char 0] @
            map Char [0x0A, 0x04, 0x41, 0x42, 0x43, 0x44, 0x39, 0x97, 0x6E, 0xFD] @ [Char 0])
           (boot (replicate 254 0)) of
      Inl f \<Rightarrow> False
    | Inr (fw, out) \<Rightarrow>
        out = [[0x01, 0x02, 0x02, 0x0A, 0x04, 0x41, 0x42, 0x43, 0x44, 0x39, 0x97, 0x6E, 0xFD]] \<and>
        msg_len fw = 0)"
proof -
  let ?R = "[0x01, 0x02, 0x02] :: byte list"
  let ?F = "[0x0A, 0x04, 0x41, 0x42, 0x43, 0x44, 0x39, 0x97, 0x6E, 0xFD] :: byte list"
  let ?A = "[0x04, 0x41, 0x42, 0x43, 0x44, 0x39, 0x97, 0x6E, 0xFD] :: byte list"
  let ?D = "[0, 0x02, 0, 0x04, 0x41, 0x42, 0x43, 0x44, 0x39, 0x97, 0x6E, 0xFD] :: byte list"
  define fw0 where "fw0 = boot (replicate 254 0)"
  have fw0: "rx_buffer fw0 = []" "msg_len fw0 = 0"
    by (simp_all add: fw0_def boot_def)
  \<comment> \<open>the frame alone\<close>
  define fwa where "fwa = fw0\<lparr>rx_buffer := [],
      rx_message := ?A @ drop (length ?A) (rx_message fw0), msg_len := - 1\<rparr>"
  have "receive_char bench 0 (fw0\<lparr>rx_buffer := ?F\<rparr>) =
         Inr (fw0\<lparr>rx_buffer := ?F\<rparr>\<lparr>rx_buffer := [],
                rx_message := ?A @ drop (length ?A) (rx_message (fw0\<lparr>rx_buffer := ?F\<rparr>)),
                msg_len := - 1\<rparr>, True)"
  proof (rule receive_char_rejects)
    show "COBS_decode bench (rx_buffer (fw0\<lparr>rx_buffer := ?F\<rparr>)) RX_MESSAGE_SIZE = Some ?A"
      by (simp add: bench_def foreign_frame_alone_decodes RX_MESSAGE_SIZE_def)
    show "?A ! 0 \<noteq> DEVICE_ADDRESS \<or>
          crc32 (take (length ?A - 4) ?A) \<noteq> load32 ?A (length ?A - 4)"
      by (simp add: DEVICE_ADDRESS_def)
  qed (simp_all add: RX_MESSAGE_SIZE_def)
  then have rxa: "receive_char bench 0 (fw0\<lparr>rx_buffer := ?F\<rparr>) = Inr (fwa, True)"
    by (simp add: fwa_def)
  have pa: "process_message bench fwa = Inr (fwa, [])"
    by (rule process_message_idle) (simp add: fwa_def)
  have "main_loop bench (map Char ?F @ Char 0 # []) fw0 =
     (case process_message bench fwa of
        Inl f \<Rightarrow> Inl f
      | Inr (fw2, out) \<Rightarrow>
          (case main_loop bench [] fw2 of
             Inl f \<Rightarrow> Inl f
           | Inr (fw3, out') \<Rightarrow> Inr (fw3, out @ out')))"
  proof (rule main_loop_frame_appended)
    show "receive_char bench 0 (fw0\<lparr>rx_buffer := rx_buffer fw0 @ ?F\<rparr>) = Inr (fwa, True)"
      using rxa by (simp add: fw0)
  qed (simp_all add: fw0 RX_BUFFER_SIZE_def)
  then have alone: "main_loop bench (map Char ?F @ Char 0 # []) fw0 = Inr (fwa, [])"
    by (simp only: pa sum.case prod.case main_loop.simps(1) append_Nil)
  \<comment> \<open>the runt, then the frame\<close>
  define fw1 where "fw1 = fw0\<lparr>rx_buffer := ?R, msg_len := 0\<rparr>"
  define fw2 where "fw2 = fw1\<lparr>rx_buffer := [],
      rx_message := ?D @ drop (length ?D) (rx_message fw1), msg_len := int (length ?D) - 4\<rparr>"
  define msg where "msg = as_message (rx_message fw2)"
  have fw1: "rx_buffer fw1 = ?R" "msg_len fw1 = 0"
    by (simp_all add: fw1_def)
  have rx1: "receive_char bench 0 (fw0\<lparr>rx_buffer := rx_buffer fw0 @ ?R\<rparr>) = Inr (fw1, True)"
    by (simp add: receive_char_short fw0 fw1_def)
  have p1: "process_message bench fw1 = Inr (fw1, [])"
    by (rule process_message_idle) (simp add: fw1)
  have "receive_char bench 0 (fw1\<lparr>rx_buffer := ?R @ ?F\<rparr>) =
         Inr (fw1\<lparr>rx_buffer := ?R @ ?F\<rparr>\<lparr>rx_buffer := [],
                rx_message := ?D @ drop (length ?D) (rx_message (fw1\<lparr>rx_buffer := ?R @ ?F\<rparr>)),
                msg_len := int (length ?D) - 4\<rparr>, True)"
  proof (rule receive_char_accepts)
    show "COBS_decode bench (rx_buffer (fw1\<lparr>rx_buffer := ?R @ ?F\<rparr>)) RX_MESSAGE_SIZE = Some ?D"
      using residue_and_frame_decode by (simp add: bench_def RX_MESSAGE_SIZE_def)
    show "crc32 (take (length ?D - 4) ?D) = load32 ?D (length ?D - 4)"
      by (rule residue_and_frame_crc)
  qed (simp_all add: RX_MESSAGE_SIZE_def DEVICE_ADDRESS_def)
  then have rx2: "receive_char bench 0 (fw1\<lparr>rx_buffer := rx_buffer fw1 @ ?F\<rparr>) = Inr (fw2, True)"
    by (simp add: fw2_def fw1)
  have m: "dev_address msg = 0" "command msg = CMD_PING" "channel msg = 0"
    "payload_length msg = 4" "take 4 (payload msg) = [0x41, 0x42, 0x43, 0x44]"
    "12 \<le> length (payload msg)"
    by (simp_all add: msg_def fw2_def fw1_def fw0_def boot_def as_message_def CMD_PING_def)
  have pos: "0 < msg_len fw2"
    by (simp add: fw2_def)
  have p2: "process_message bench fw2 =
      Inr (fw2\<lparr>msg_len := 0\<rparr>,
           [[0x01, 0x02, 0x02, 0x0A, 0x04, 0x41, 0x42, 0x43, 0x44, 0x39, 0x97, 0x6E, 0xFD]])"
    using process_message_PING [OF pos msg_def m(2)] m
    by (simp add: ping_echo_stuffed)
  have "main_loop bench (map Char ?F @ Char 0 # []) fw1 =
     (case process_message bench fw2 of
        Inl f \<Rightarrow> Inl f
      | Inr (fw2, out) \<Rightarrow>
          (case main_loop bench [] fw2 of
             Inl f \<Rightarrow> Inl f
           | Inr (fw3, out') \<Rightarrow> Inr (fw3, out @ out')))"
    by (rule main_loop_frame_appended [OF _ _ _ rx2]) (simp_all add: fw1 RX_BUFFER_SIZE_def)
  then have second: "main_loop bench (map Char ?F @ Char 0 # []) fw1 =
      Inr (fw2\<lparr>msg_len := 0\<rparr>,
           [[0x01, 0x02, 0x02, 0x0A, 0x04, 0x41, 0x42, 0x43, 0x44, 0x39, 0x97, 0x6E, 0xFD]])"
    by (simp only: p2 sum.case prod.case main_loop.simps(1) append_Nil2)
  have "main_loop bench (map Char ?R @ Char 0 # (map Char ?F @ Char 0 # [])) fw0 =
     (case process_message bench fw1 of
        Inl f \<Rightarrow> Inl f
      | Inr (fw2, out) \<Rightarrow>
          (case main_loop bench (map Char ?F @ Char 0 # []) fw2 of
             Inl f \<Rightarrow> Inl f
           | Inr (fw3, out') \<Rightarrow> Inr (fw3, out @ out')))"
    by (rule main_loop_frame_appended [OF _ _ _ rx1]) (simp_all add: fw0 RX_BUFFER_SIZE_def)
  then have both: "main_loop bench (map Char ?R @ Char 0 # (map Char ?F @ Char 0 # [])) fw0 =
      Inr (fw2\<lparr>msg_len := 0\<rparr>,
           [[0x01, 0x02, 0x02, 0x0A, 0x04, 0x41, 0x42, 0x43, 0x44, 0x39, 0x97, 0x6E, 0xFD]])"
    by (simp only: p1 second sum.case prod.case append_Nil)
  from alone both show ?thesis
    unfolding fw0_def [symmetric]
    by (simp add: foreign_frame_alone_decodes foreign_frame_alone_crc fwa_def)
qed

subsection \<open>Requests that get no response\<close>

text \<open>
  C1 does not hold of the source. At the verified DRV_SET_MICROSTEPS request for axis 0 with
  value 3, the default case of the inner switch prepares the response \<open>0xA1\<close> with payload
  length 0 and then leaves by \<open>continue\<close>: the switch returns \<open>Continue\<close>, nothing is written to
  the host, and the state of the loop is unchanged, \<open>msg_len\<close> included.
\<close>

theorem invalid_microsteps_response_is_skipped:
  "dispatch bench (as_message (rx_message (received [0, 0x21, 0, 4, 3, 0, 0, 0])))
     (device (received [0, 0x21, 0, 4, 3, 0, 0, 0])) =
     Inr (Continue \<lparr>dev_address = 0, command = 0xA1, channel = 0, payload_length = 0,
                     payload = []\<rparr>,
          device (received [0, 0x21, 0, 4, 3, 0, 0, 0])) \<and>
   process_message bench (received [0, 0x21, 0, 4, 3, 0, 0, 0]) =
     Inr (received [0, 0x21, 0, 4, 3, 0, 0, 0], [])"
proof -
  define fw where "fw = received [0, 0x21, 0, 4, 3, 0, 0, 0]"
  define msg where "msg = as_message (rx_message fw)"
  have m: "dev_address msg = 0" "command msg = 0x21" "channel msg = 0" "payload_length msg = 4"
    "load32 (payload msg) 0 = 3"
    by (simp_all add: msg_def fw_def received_fields as_message_def with_crc_def load32_def)
  have pos: "0 < msg_len fw"
    by (simp add: fw_def received_fields)
  have "dispatch bench msg (device fw) = Inr (Continue (bad_arguments msg), device fw) \<and>
        process_message bench fw = Inr (fw, [])"
    unfolding msg_def
    by (intro conjI invalid_microsteps_no_response pos)
       (simp_all add: msg_def [symmetric] m command_codes STEPPER_COUNT_def)
  then show ?thesis
    unfolding fw_def [symmetric] msg_def [symmetric]
    by (simp add: m bad_arguments_def reply_def)
qed

text \<open>
  C4 does not hold of the source. At the verified HOME request for axis 0 whose sensor-channel
  bytes are \<open>FF FF FF FF\<close>, the index is \<open>-1\<close>; the signed test \<open>home_pin >= DIGITAL_INPUT_COUNT\<close>
  lets it pass, and \<open>digital_input_pins\<close> is read outside its bounds instead of the request being
  answered with \<open>0x97\<close>.
\<close>

theorem negative_home_sensor_is_not_rejected:
  "sint (load32 (payload (as_message (rx_message
      (received [0, 0x17, 0, 12, 1, 0, 0, 0, 0xFF, 0xFF, 0xFF, 0xFF, 1, 0, 0, 0])))) 4) = - 1 \<and>
   process_message bench
     (received [0, 0x17, 0, 12, 1, 0, 0, 0, 0xFF, 0xFF, 0xFF, 0xFF, 1, 0, 0, 0]) =
     Inl OutOfBounds"
proof -
  define fw where
    "fw = received [0, 0x17, 0, 12, 1, 0, 0, 0, 0xFF, 0xFF, 0xFF, 0xFF, 1, 0, 0, 0]"
  define msg where "msg = as_message (rx_message fw)"
  have m: "command msg = 0x17" "channel msg = 0" "payload_length msg = 12"
    "load32 (payload msg) 4 = 0xFFFFFFFF"
    by (simp_all add: msg_def fw_def received_fields as_message_def with_crc_def load32_def)
  have pin: "sint (load32 (payload msg) 4) = - 1"
    by (simp add: m)
  have pos: "0 < msg_len fw"
    by (simp add: fw_def received_fields)
  have "dispatch bench msg (device fw) = Inl OutOfBounds"
    by (simp add: dispatch_def command_codes handle_HOME_def m STEPPER_COUNT_def
        DIGITAL_INPUT_COUNT_def array_read_def)
  with pos have "process_message bench fw = Inl OutOfBounds"
    by (simp add: process_message_def msg_def [symmetric])
  with pin show ?thesis
    by (simp add: msg_def fw_def)
qed

lemma microsteps_frame_decodes:
  "cobs_decode [0x01, 0x05, 0x21, 0x02, 0x04, 0x05, 0x01, 0x01, 0x05, 0xB8, 0x1A, 0x7E, 0x83] 254 =
     Some [0, 0x21, 2, 4, 5, 0, 0, 0, 0xB8, 0x1A, 0x7E, 0x83]"
  by code_simp

lemma microsteps_frame_crc:
  "crc32 (take (length [0, 0x21, 2, 4, 5, 0, 0, 0, 0xB8, 0x1A, 0x7E, 0x83 :: byte] - 4)
            [0, 0x21, 2, 4, 5, 0, 0, 0, 0xB8, 0x1A, 0x7E, 0x83]) =
   load32 [0, 0x21, 2, 4, 5, 0, 0, 0, 0xB8, 0x1A, 0x7E, 0x83]
     (length [0, 0x21, 2, 4, 5, 0, 0, 0, 0xB8, 0x1A, 0x7E, 0x83 :: byte] - 4)"
  by code_simp

text \<open>
  C2 does not hold of the source. The frame \<open>01 05 21 02 04 05 01 01 05 B8 1A 7E 83\<close> carries
  the DRV_SET_MICROSTEPS request for axis 2 with value 5 and its CRC-32; it passes framing,
  addressing and checksum verification. Neither the iteration that receives it nor the two that
  follow write anything to the host, and \<open>msg_len\<close> stays at 8.
\<close>

theorem verified_frame_without_response:
  "cobs_decode [0x01, 0x05, 0x21, 0x02, 0x04, 0x05, 0x01, 0x01, 0x05, 0xB8, 0x1A, 0x7E, 0x83] 254 =
     Some (with_crc [0, 0x21, 2, 4, 5, 0, 0, 0]) \<and>
   (case main_loop bench
           (map Char [0x01, 0x05, 0x21, 0x02, 0x04, 0x05, 0x01, 0x01, 0x05, 0xB8, 0x1A, 0x7E, 0x83] @
            [Char 0, Timeout, Timeout])
           (boot (replicate 254 0)) of
      Inl f \<Rightarrow> False
    | Inr (fw, out) \<Rightarrow> out = [] \<and> msg_len fw = 8 \<and> device fw = initialize_hardware)"
proof -
  let ?S = "[0x01, 0x05, 0x21, 0x02, 0x04, 0x05, 0x01, 0x01, 0x05, 0xB8, 0x1A, 0x7E, 0x83]
              :: byte list"
  let ?D = "[0, 0x21, 2, 4, 5, 0, 0, 0, 0xB8, 0x1A, 0x7E, 0x83] :: byte list"
  define fw0 where "fw0 = boot (replicate 254 0)"
  define fw1 where "fw1 = fw0\<lparr>rx_buffer := [],
       rx_message := ?D @ drop (length ?D) (rx_message fw0), msg_len := int (length ?D) - 4\<rparr>"
  have fw0: "rx_buffer fw0 = []"
    by (simp add: fw0_def boot_def)
  have fw1: "msg_len fw1 = 8" "rx_message fw1 = ?D @ drop (length ?D) (rx_message fw0)"
    "device fw1 = initialize_hardware"
    by (simp_all add: fw1_def fw0_def boot_def)
  have "receive_char bench 0 (fw0\<lparr>rx_buffer := ?S\<rparr>) =
         Inr (fw0\<lparr>rx_buffer := ?S\<rparr>\<lparr>rx_buffer := [],
                rx_message := ?D @ drop (length ?D) (rx_message (fw0\<lparr>rx_buffer := ?S\<rparr>)),
                msg_len := int (length ?D) - 4\<rparr>, True)"
  proof (rule receive_char_accepts)
    show "COBS_decode bench (rx_buffer (fw0\<lparr>rx_buffer := ?S\<rparr>)) RX_MESSAGE_SIZE = Some ?D"
      by (simp add: bench_def microsteps_frame_decodes RX_MESSAGE_SIZE_def)
    show "crc32 (take (length ?D - 4) ?D) = load32 ?D (length ?D - 4)"
      by (rule microsteps_frame_crc)
  qed (simp_all add: RX_MESSAGE_SIZE_def DEVICE_ADDRESS_def)
  then have rx: "receive_char bench 0 (fw0\<lparr>rx_buffer := ?S\<rparr>) = Inr (fw1, True)"
    by (simp add: fw1_def)
  have p: "process_message bench fw1 = Inr (fw1, [])"
    by (rule invalid_microsteps_no_response(2))
       (simp_all add: fw1 as_message_def command_codes STEPPER_COUNT_def load32_def)
  have "main_loop bench (map Char ?S @ Char 0 # [Timeout, Timeout]) fw0 = Inr (fw1, [])"
    by (subst main_loop_frame [where ?fw1.0 = fw1])
       (simp_all add: rx p fw0 RX_BUFFER_SIZE_def)
  moreover have "with_crc [0, 0x21, 2, 4, 5, 0, 0, 0] = ?D"
    by code_simp
  ultimately show ?thesis
    by (simp add: fw0_def fw1 microsteps_frame_decodes)
qed

subsection \<open>The minimum frame length\<close>

lemma process_message_INIT:
  assumes pos: "0 < msg_len fw"
    and msg: "msg = as_message (rx_message fw)"
    and cmd: "command msg = CMD_INIT"
    and st: "steppers (device fw) = [s0, s1, s2, s3]"
  shows "process_message bench fw =
     Inr (fw\<lparr>msg_len := 0,
              device := (device fw)
                \<lparr>steppers := map (\<lambda>s. snd (Stepper_moveAtSpeed 0 s)) [s0, s1, s2, s3],
                 gpio_out := (gpio_out (device fw))(14 := False, 15 := False)\<rparr>\<rparr>,
          [cobs_stuff []
             (with_crc ([dev_address msg, 0x01, channel msg, 154] @ ascii configuration_json))])"
proof -
  let ?resp = "reply msg CMD_INIT 154 (map of_char configuration_json @ [0])"
  have d: "dispatch bench msg (device fw) =
     Inr (Break ?resp,
          (device fw)\<lparr>steppers := map (\<lambda>s. snd (Stepper_moveAtSpeed 0 s)) [s0, s1, s2, s3],
                       gpio_out := (gpio_out (device fw))(14 := False, 15 := False)\<rparr>)"
    by (simp add: dispatch_def cmd handle_INIT_result [OF st])
  have b: "message_bytes ?resp =
           [dev_address msg, 0x01, channel msg, 154] @ ascii configuration_json"
    by (simp add: message_bytes_def reply_def CMD_INIT_def ascii_def length_configuration_json)
  have "length (with_crc (message_bytes ?resp)) \<le> 253"
    by (simp add: b length_with_crc ascii_def length_configuration_json)
  then have e: "COBS_encode bench (with_crc (message_bytes ?resp)) TX_BUFFER_SIZE =
                Some (cobs_stuff [] (with_crc (message_bytes ?resp)))"
    using cobs_encode_fits by (simp add: bench_def)
  have t: "transmit bench ?resp = Inr (Some (cobs_stuff [] (with_crc (message_bytes ?resp))))"
    unfolding transmit_def Let_def e
    by (simp add: reply_def TX_MESSAGE_SIZE_def)
  show ?thesis
    using pos by (simp add: process_message_def msg [symmetric] d t b)
qed

lemma undersized_frame_decodes:
  "cobs_decode [0x01, 0x02, 0x01, 0x05, 0x53, 0xE8, 0x5A, 0xE6] 254 =
     Some [0, 0x01, 0, 0x53, 0xE8, 0x5A, 0xE6]"
  by code_simp

lemma undersized_frame_crc:
  "crc32 (take (length [0, 0x01, 0, 0x53, 0xE8, 0x5A, 0xE6 :: byte] - 4)
            [0, 0x01, 0, 0x53, 0xE8, 0x5A, 0xE6]) =
   load32 [0, 0x01, 0, 0x53, 0xE8, 0x5A, 0xE6]
     (length [0, 0x01, 0, 0x53, 0xE8, 0x5A, 0xE6 :: byte] - 4)"
  by code_simp

text \<open>
  C5 does not hold of the source. The eight stuffed bytes \<open>01 02 01 05 53 E8 5A E6\<close> pass the
  test \<open>rx_buffer_pos < 8\<close> and decode to seven bytes: address 0, command INIT, channel 0 and
  their CRC-32. Read on a freshly started board they are dispatched: every axis is commanded
  and the INIT response is written to the host.
\<close>

theorem seven_byte_message_runs_INIT:
  "cobs_decode [0x01, 0x02, 0x01, 0x05, 0x53, 0xE8, 0x5A, 0xE6] 254 =
     Some [0, 0x01, 0, 0x53, 0xE8, 0x5A, 0xE6] \<and>
   (case main_loop bench
           (map Char [0x01, 0x02, 0x01, 0x05, 0x53, 0xE8, 0x5A, 0xE6] @ [Char 0])
           (boot (replicate 254 0)) of
      Inl f \<Rightarrow> False
    | Inr (fw, out) \<Rightarrow>
        out = [cobs_stuff [] (with_crc ([0, 0x01, 0, 154] @ ascii configuration_json))] \<and>
        map mode (steppers (device fw)) =
          [RUN_AT_SPEED, RUN_AT_SPEED, RUN_AT_SPEED, RUN_AT_SPEED])"
proof -
  let ?S = "[0x01, 0x02, 0x01, 0x05, 0x53, 0xE8, 0x5A, 0xE6] :: byte list"
  let ?D = "[0, 0x01, 0, 0x53, 0xE8, 0x5A, 0xE6] :: byte list"
  define fw0 where "fw0 = boot (replicate 254 0)"
  define fw1 where "fw1 = fw0\<lparr>rx_buffer := [],
       rx_message := ?D @ drop (length ?D) (rx_message fw0), msg_len := int (length ?D) - 4\<rparr>"
  define msg where "msg = as_message (rx_message fw1)"
  have fw0: "rx_buffer fw0 = []"
    by (simp add: fw0_def boot_def)
  have fw1: "0 < msg_len fw1" "steppers (device fw1) = steppers initialize_hardware"
    by (simp_all add: fw1_def fw0_def boot_def)
  have m: "dev_address msg = 0" "command msg = CMD_INIT" "channel msg = 0"
    by (simp_all add: msg_def fw1_def as_message_def CMD_INIT_def)
  have "receive_char bench 0 (fw0\<lparr>rx_buffer := ?S\<rparr>) =
         Inr (fw0\<lparr>rx_buffer := ?S\<rparr>\<lparr>rx_buffer := [],
                rx_message := ?D @ drop (length ?D) (rx_message (fw0\<lparr>rx_buffer := ?S\<rparr>)),
                msg_len := int (length ?D) - 4\<rparr>, True)"
  proof (rule receive_char_accepts)
    show "COBS_decode bench (rx_buffer (fw0\<lparr>rx_buffer := ?S\<rparr>)) RX_MESSAGE_SIZE = Some ?D"
      by (simp add: bench_def undersized_frame_decodes RX_MESSAGE_SIZE_def)
    show "crc32 (take (length ?D - 4) ?D) = load32 ?D (length ?D - 4)"
      by (rule undersized_frame_crc)
  qed (simp_all add: RX_MESSAGE_SIZE_def DEVICE_ADDRESS_def)
  then have rx: "receive_char bench 0 (fw0\<lparr>rx_buffer := ?S\<rparr>) = Inr (fw1, True)"
    by (simp add: fw1_def)
  note p = process_message_INIT [OF fw1(1) msg_def m(2)
      fw1(2) [unfolded initialize_hardware_steppers]]
  have "main_loop bench (map Char ?S @ Char 0 # []) fw0 =
        Inr (fw1\<lparr>msg_len := 0,
              device := (device fw1)
                \<lparr>steppers := map (\<lambda>s. snd (Stepper_moveAtSpeed 0 s))
                    (steppers initialize_hardware),
                 gpio_out := (gpio_out (device fw1))(14 := False, 15 := False)\<rparr>\<rparr>,
             [cobs_stuff [] (with_crc ([0, 0x01, 0, 154] @ ascii configuration_json))])"
    by (subst main_loop_frame [where ?fw1.0 = fw1])
       (simp_all add: rx p fw0 m RX_BUFFER_SIZE_def initialize_hardware_steppers)
  then show ?thesis
    by (simp add: fw0_def undersized_frame_decodes initialize_hardware_steppers moveAtSpeed_0)
qed

subsection \<open>INIT and the axes\<close>

lemma dispatch_MOVE_AT_SPEED:
  assumes "command move = CMD_STEPPER_MOVE_AT_SPEED" and "payload_length move = 4"
    and "channel move < STEPPER_COUNT"
  shows "dispatch pf move dev =
     Inr (Break (reply move CMD_STEPPER_MOVE_AT_SPEED 4 (store32 1)),
          set_stepper dev (unat (channel move))
            (snd (Stepper_moveAtSpeed (sint (load32 (payload move) 0))
                    (steppers dev ! unat (channel move)))))"
  using assms
  by (simp add: dispatch_def command_codes handle_MOVE_AT_SPEED_def Stepper_moveAtSpeed_def
      bool32_def Let_def)

lemma dispatch_INIT_result:
  assumes len: "length (steppers dev) = 4" and cmd: "command init = CMD_INIT"
  shows "dispatch pf init dev =
     Inr (Break (reply init CMD_INIT 154 (map of_char configuration_json @ [0])),
          dev\<lparr>steppers := map (\<lambda>s. snd (Stepper_moveAtSpeed 0 s)) (steppers dev),
               gpio_out := (gpio_out dev)(14 := False, 15 := False)\<rparr>)"
proof -
  from length_4_conv [OF len] obtain a b c d where st: "steppers dev = [a, b, c, d]"
    by blast
  have "dispatch pf init dev = handle_INIT init dev"
    by (simp add: dispatch_def cmd)
  then show ?thesis
    by (simp add: handle_INIT_result [OF st] st)
qed

text \<open>
  C9, amended. Once a verified INIT request has been processed, whatever the axes were doing
  before, in particular after a MOVE_AT_SPEED request with a nonzero speed, every axis has been
  given \<open>moveAtSpeed(0)\<close>, so that its target rate is 0, and every digital output line is low.
  Whether \<open>isStopped\<close> holds at that moment is left open.
\<close>

theorem init_commands_every_axis_to_stop:
  assumes "length (steppers dev) = unat STEPPER_COUNT" and "command init = CMD_INIT"
  shows "\<exists>r dev'.
           dispatch pf init dev = Inr (Break r, dev') \<and> command r = CMD_INIT \<and>
           steppers dev' = map (\<lambda>s. snd (Stepper_moveAtSpeed 0 s)) (steppers dev) \<and>
           list_all (\<lambda>s. target_rate s = 0) (steppers dev') \<and>
           list_all (\<lambda>pin. \<not> gpio_out dev' pin) digital_output_pins"
proof -
  from assms(1) have len: "length (steppers dev) = 4"
    by (simp add: STEPPER_COUNT_def)
  show ?thesis
    by (simp add: dispatch_INIT_result [OF len assms(2)] reply_def list_all_iff moveAtSpeed_0
        digital_output_pins_def)
qed

text \<open>
  C9, as stated, fails: on a freshly started board, after MOVE_AT_SPEED with speed 100 on axis 0
  and then INIT, \<open>isStopped\<close> is false for axis 0 when the INIT response has been produced, both
  when INIT is processed at once and when axis 0 has reached the rate 100 in between.
\<close>

theorem axes_not_stopped_right_after_init:
  "(case dispatch bench (as_message (rx_message (received [0, 0x11, 0, 4, 100, 0, 0, 0])))
           initialize_hardware of
      Inl f \<Rightarrow> False
    | Inr (left1, dev1) \<Rightarrow>
        (case dispatch bench (as_message (rx_message (received [0, 0x01, 0, 0]))) dev1 of
           Inl f \<Rightarrow> False
         | Inr (Continue r, dev2) \<Rightarrow> False
         | Inr (Break r, dev2) \<Rightarrow>
             command r = CMD_INIT \<and> \<not> Stepper_isStopped (steppers dev2 ! 0)) \<and>
        (case dispatch bench (as_message (rx_message (received [0, 0x01, 0, 0])))
                (set_stepper dev1 0 ((steppers dev1 ! 0)\<lparr>current_rate := 100\<rparr>)) of
           Inl f \<Rightarrow> False
         | Inr (Continue r, dev2) \<Rightarrow> False
         | Inr (Break r, dev2) \<Rightarrow>
             command r = CMD_INIT \<and> current_rate (steppers dev2 ! 0) = 100 \<and>
             \<not> Stepper_isStopped (steppers dev2 ! 0)))"
proof -
  define move where "move = as_message (rx_message (received [0, 0x11, 0, 4, 100, 0, 0, 0]))"
  define init where "init = as_message (rx_message (received [0, 0x01, 0, 0]))"
  have m: "command move = CMD_STEPPER_MOVE_AT_SPEED" "payload_length move = 4"
    "channel move < STEPPER_COUNT"
    by (simp_all add: move_def received_fields as_message_def with_crc_def command_codes
        STEPPER_COUNT_def)
  have i: "command init = CMD_INIT"
    by (simp add: init_def received_fields as_message_def with_crc_def command_codes)
  define dev1 where "dev1 = set_stepper initialize_hardware (unat (channel move))
            (snd (Stepper_moveAtSpeed (sint (load32 (payload move) 0))
                    (steppers initialize_hardware ! unat (channel move))))"
  define running where "running = set_stepper dev1 0 ((steppers dev1 ! 0)\<lparr>current_rate := 100\<rparr>)"
  have "length (steppers initialize_hardware) = 4"
    by (simp add: initialize_hardware_steppers)
  then have len: "length (steppers dev1) = 4" "length (steppers running) = 4"
    by (simp_all add: dev1_def running_def set_stepper_def)
  have rate: "current_rate (steppers running ! 0) = 100"
    using len(1) by (simp add: running_def set_stepper_def)
  have d1: "dispatch bench move initialize_hardware =
      Inr (Break (reply move CMD_STEPPER_MOVE_AT_SPEED 4 (store32 1)), dev1)"
    unfolding dev1_def by (rule dispatch_MOVE_AT_SPEED [OF m])
  have stopped: "\<not> Stepper_isStopped (snd (Stepper_moveAtSpeed 0 s))"
    "current_rate (snd (Stepper_moveAtSpeed 0 s)) = current_rate s" for s
    by (simp_all add: Stepper_moveAtSpeed_def Stepper_isStopped_def)
  show ?thesis
    unfolding move_def [symmetric] init_def [symmetric]
    using len rate
    by (simp add: d1 running_def [symmetric] dispatch_INIT_result [OF _ i] reply_def stopped)
qed

theorem init_commands_every_axis_to_stop_witness:
  "\<exists>r dev'.
     dispatch bench (as_message (rx_message (received [0, 0x01, 0, 0])))
       (set_stepper initialize_hardware 0
          (snd (Stepper_moveAtSpeed 100 (steppers initialize_hardware ! 0)))) =
       Inr (Break r, dev') \<and>
     command r = CMD_INIT \<and>
     list_all (\<lambda>s. target_rate s = 0) (steppers dev') \<and>
     list_all (\<lambda>pin. \<not> gpio_out dev' pin) digital_output_pins"
proof -
  define init where "init = as_message (rx_message (received [0, 0x01, 0, 0]))"
  define dev where "dev = set_stepper initialize_hardware 0
          (snd (Stepper_moveAtSpeed 100 (steppers initialize_hardware ! 0)))"
  have i: "command init = CMD_INIT"
    by (simp add: init_def received_fields as_message_def with_crc_def command_codes)
  have "length (steppers initialize_hardware) = 4"
    by (simp add: initialize_hardware_steppers)
  then have len: "length (steppers dev) = unat STEPPER_COUNT"
    by (simp add: dev_def set_stepper_def STEPPER_COUNT_def)
  from init_commands_every_axis_to_stop [OF len i, of bench]
  show ?thesis
    unfolding init_def [symmetric] dev_def [symmetric] by blast
qed

subsection \<open>The checksum\<close>

lemma crc32_bits_funpow: "crc32_bits n crc = (crc_spec_step ^^ n) crc"
proof (induction n arbitrary: crc)
  case 0
  show ?case by simp
next
  case (Suc n)
  have low: "(crc AND 1 \<noteq> 0) = bit crc 0"
    by (simp add: and_one_eq mod_2_eq_odd bit_0)
  show ?case
    by (simp only: crc32_bits.simps Suc.IH funpow_Suc_right o_apply crc_spec_step_def low)
qed

lemma crc32_loop_fold: "crc32_loop data crc = fold crc_spec_byte data crc"
  by (induction data arbitrary: crc) (simp_all add: crc32_bits_funpow crc_spec_byte_def)

lemma crc32_check_value: "crc32 (ascii ''123456789'') = 0xCBF43926"
  by code_simp

text \<open>
  C6. \<open>crc32\<close> is the reflected CRC-32 of the specification (initial register \<open>0xFFFFFFFF\<close>,
  each byte XORed into the low byte and followed by eight conditional shift/XOR steps against
  \<open>0xEDB88320\<close>, final complement), and on the nine ASCII bytes of "123456789" it returns
  \<open>0xCBF43926\<close>.
\<close>

theorem crc32_is_reflected_crc32:
  "crc32 data = crc32_spec data \<and> crc32 (ascii ''123456789'') = 0xCBF43926"
proof
  show "crc32 data = crc32_spec data"
    by (simp add: crc32_def crc32_spec_def crc32_loop_fold)
  show "crc32 (ascii ''123456789'') = 0xCBF43926"
    by (rule crc32_check_value)
qed

end
